theory Spec2Isabelle
  imports Complex_Main "HOL-Library.Sublist" "HOL-Library.Multiset"
begin

section \<open>Python values used by the backend\<close>

text \<open>
  A Python \<open>str\<close> is a sequence of Unicode code points and \<open>len\<close> counts code points.
  It is modelled as a list of code points (natural numbers); \<open>py\<close> turns an ASCII
  literal into such a list. Wall-clock readings of \<open>time.time()\<close> are modelled as
  real numbers (rounding of floats is not modelled).
\<close>

type_synonym pystr = "nat list"

definition py :: "string \<Rightarrow> pystr" where
  "py s = map of_char s"

text \<open>\<open>xs[i:]\<close> and \<open>xs[:i]\<close> with Python's clamping of negative and large indices.\<close>

definition slice_from :: "int \<Rightarrow> 'a list \<Rightarrow> 'a list" where
  "slice_from i xs =
     (let n = int (length xs);
          j = (if i < 0 then max (n + i) 0 else min i n)
      in drop (nat j) xs)"

definition slice_to :: "int \<Rightarrow> 'a list \<Rightarrow> 'a list" where
  "slice_to i xs =
     (let n = int (length xs);
          j = (if i < 0 then max (n + i) 0 else min i n)
      in take (nat j) xs)"

text \<open>\<open>sep.join(xs)\<close>.\<close>

fun str_join :: "pystr \<Rightarrow> pystr list \<Rightarrow> pystr" where
  "str_join sep [] = []"
| "str_join sep [x] = x"
| "str_join sep (x # y # ys) = x @ sep @ str_join sep (y # ys)"

section \<open>RateLimiter (middleware/rate\_limiter.py)\<close>

datatype http_error = HTTPException nat

text \<open>
  \<open>self.requests\<close> is a \<open>defaultdict(list)\<close>: reading an unknown client yields the
  empty list, so the mapping is a total function into lists of timestamps.
\<close>

record rate_limiter =
  requests_per_minute :: int
  requests :: "pystr \<Rightarrow> real list"

text \<open>
  \<open>dispatch\<close>: the result is either the 429 error or the value written to the
  \<open>X-RateLimit-Remaining\<close> header of the response; the limiter is returned updated.
\<close>

definition dispatch :: "rate_limiter \<Rightarrow> pystr \<Rightarrow> real \<Rightarrow> (http_error + int) \<times> rate_limiter" where
  "dispatch rl client_ip now =
     (let rl1 = rl\<lparr>requests := (requests rl)
                  (client_ip := filter (\<lambda>req_time. now - req_time < 60) (requests rl client_ip))\<rparr>
      in if int (length (requests rl1 client_ip)) \<ge> requests_per_minute rl1
         then (Inl (HTTPException 429), rl1)
         else let rl2 = rl1\<lparr>requests := (requests rl1)
                           (client_ip := requests rl1 client_ip @ [now])\<rparr>
              in (Inr (requests_per_minute rl2 - int (length (requests rl2 client_ip))), rl2))"

text \<open>A run of the middleware over a sequence of requests (client, arrival time): which were admitted.\<close>

fun dispatch_all :: "rate_limiter \<Rightarrow> (pystr \<times> real) list \<Rightarrow> bool list" where
  "dispatch_all rl [] = []"
| "dispatch_all rl ((client_ip, now) # reqs) =
     (case dispatch rl client_ip now of (res, rl') \<Rightarrow> (\<not> isl res) # dispatch_all rl' reqs)"

definition new_limiter :: "int \<Rightarrow> rate_limiter" where
  "new_limiter n = \<lparr>requests_per_minute = n, requests = (\<lambda>_. [])\<rparr>"

section \<open>Session and history state (app.state)\<close>

text \<open>
  A Python \<open>dict\<close> keeps its keys in insertion order and the code iterates over
  \<open>items()\<close>, so an artifact mapping is an association list in insertion order.
  \<open>d[k] = v\<close> replaces the value of a present key in place and appends a new key;
  \<open>del d[k]\<close> removes the key.
\<close>

type_synonym 'v pydict = "(pystr \<times> 'v) list"

definition dict_keys :: "'v pydict \<Rightarrow> pystr set" where
  "dict_keys d = fst ` set d"

fun dict_set :: "pystr \<Rightarrow> 'v \<Rightarrow> 'v pydict \<Rightarrow> 'v pydict" where
  "dict_set k v [] = [(k, v)]"
| "dict_set k v ((k', v') # d) = (if k' = k then (k, v) # d else (k', v') # dict_set k v d)"

definition dict_del :: "pystr \<Rightarrow> 'v pydict \<Rightarrow> 'v pydict" where
  "dict_del k d = filter (\<lambda>(k', v). k' \<noteq> k) d"

text \<open>
  The artifact records are the dictionaries the upload endpoints store. Every kind has
  \<open>filename\<close> and \<open>uploaded_at\<close>; the fields no modelled operation reads
  (\<open>metadata\<close>, \<open>char_count\<close>, \<open>word_count\<close>, \<open>ready_for_gemini\<close>) are left out.
  A CSV loaded from a URL has no \<open>path\<close> key. The parsed table \<open>df\<close> is kept as
  what pandas renders from it.
\<close>

record file_info =
  filename :: pystr
  uploaded_at :: real

record image_info = file_info +
  path :: pystr
  resized_path :: "pystr option"

record dataframe =
  shape_rows :: nat
  df_columns :: "pystr list"
  head_to_string :: pystr
  describe_to_string :: pystr

record csv_info = file_info +
  csv_path :: "pystr option"
  df :: dataframe

record doc_info = file_info +
  doc_path :: pystr
  doc_text :: pystr

record session =
  images :: "image_info pydict"
  csvs :: "csv_info pydict"
  documents :: "doc_info pydict"
  created_at :: real
  last_activity :: real

record msg_context =
  images_count :: nat
  csvs_count :: nat
  documents_count :: nat

record message =
  role :: pystr
  content :: pystr
  timestamp :: real
  msg_context :: "msg_context option"

record app_state =
  sessions :: "pystr \<rightharpoonup> session"
  chat_history :: "pystr \<rightharpoonup> message list"

subsection \<open>Deleting artifacts (api/v1/endpoints/upload\_*.py)\<close>

text \<open>
  Removing the backing files changes no session or history state and every exception of
  \<open>unlink\<close> is swallowed; the bulk endpoints count the files whose \<open>unlink\<close> did
  not raise, so they take that outcome as the parameter \<open>unlink_ok\<close>.
\<close>

record delete_response =
  status :: pystr
  deleted_file_id :: "pystr option"
  deleted_count :: "nat option"
  history_cleared :: "bool option"

text \<open>\<open>if session_id in chat_history: del chat_history[session_id]\<close>\<close>

definition clear_history :: "pystr \<Rightarrow> app_state \<Rightarrow> app_state" where
  "clear_history session_id st =
     (if session_id \<in> dom (chat_history st)
      then st\<lparr>chat_history := (chat_history st)(session_id := None)\<rparr> else st)"

definition deleted_one :: "pystr \<Rightarrow> delete_response" where
  "deleted_one file_id =
     \<lparr>status = py ''deleted'', deleted_file_id = Some file_id, deleted_count = None,
      history_cleared = None\<rparr>"

definition delete_single_image ::
  "app_state \<Rightarrow> pystr \<Rightarrow> pystr \<Rightarrow> (http_error + delete_response) \<times> app_state" where
  "delete_single_image st session_id file_id =
     (case sessions st session_id of
        None \<Rightarrow> (Inl (HTTPException 404), st)
      | Some s \<Rightarrow>
          if file_id \<in> dict_keys (images s) then
            (let s1 = s\<lparr>images := dict_del file_id (images s)\<rparr>;
                 st1 = st\<lparr>sessions := (sessions st)(session_id \<mapsto> s1)\<rparr>
             in (Inr (deleted_one file_id),
                 if images s1 = [] \<and> csvs s1 = [] \<and> documents s1 = []
                 then clear_history session_id st1 else st1))
          else (Inl (HTTPException 404), st))"

definition delete_single_csv ::
  "app_state \<Rightarrow> pystr \<Rightarrow> pystr \<Rightarrow> (http_error + delete_response) \<times> app_state" where
  "delete_single_csv st session_id file_id =
     (case sessions st session_id of
        None \<Rightarrow> (Inl (HTTPException 404), st)
      | Some s \<Rightarrow>
          if file_id \<in> dict_keys (csvs s) then
            (let s1 = s\<lparr>csvs := dict_del file_id (csvs s)\<rparr>;
                 st1 = st\<lparr>sessions := (sessions st)(session_id \<mapsto> s1)\<rparr>
             in (Inr (deleted_one file_id),
                 if images s1 = [] \<and> csvs s1 = [] \<and> documents s1 = []
                 then clear_history session_id st1 else st1))
          else (Inl (HTTPException 404), st))"

definition delete_single_document ::
  "app_state \<Rightarrow> pystr \<Rightarrow> pystr \<Rightarrow> (http_error + delete_response) \<times> app_state" where
  "delete_single_document st session_id file_id =
     (case sessions st session_id of
        None \<Rightarrow> (Inl (HTTPException 404), st)
      | Some s \<Rightarrow>
          if file_id \<in> dict_keys (documents s) then
            (let s1 = s\<lparr>documents := dict_del file_id (documents s)\<rparr>;
                 st1 = st\<lparr>sessions := (sessions st)(session_id \<mapsto> s1)\<rparr>
             in (Inr (deleted_one file_id),
                 if images s1 = [] \<and> csvs s1 = [] \<and> documents s1 = []
                 then clear_history session_id st1 else st1))
          else (Inl (HTTPException 404), st))"

definition deleted_all :: "nat \<Rightarrow> delete_response" where
  "deleted_all n =
     \<lparr>status = py ''deleted'', deleted_file_id = None, deleted_count = Some n,
      history_cleared = Some True\<rparr>"

definition not_found :: delete_response where
  "not_found =
     \<lparr>status = py ''not_found'', deleted_file_id = None, deleted_count = Some 0,
      history_cleared = None\<rparr>"

definition delete_all_images ::
  "(pystr \<Rightarrow> bool) \<Rightarrow> app_state \<Rightarrow> pystr \<Rightarrow> delete_response \<times> app_state" where
  "delete_all_images unlink_ok st session_id =
     (case sessions st session_id of
        Some s \<Rightarrow>
          (let count = length (filter (\<lambda>(file_id, image_info). unlink_ok (path image_info)) (images s));
               s1 = s\<lparr>images := []\<rparr>;
               st1 = st\<lparr>sessions := (sessions st)(session_id \<mapsto> s1)\<rparr>
           in (deleted_all count,
               if csvs s1 = [] \<and> documents s1 = []
               then clear_history session_id st1 else st1))
      | None \<Rightarrow> (not_found, st))"

definition delete_all_csvs ::
  "(pystr \<Rightarrow> bool) \<Rightarrow> app_state \<Rightarrow> pystr \<Rightarrow> delete_response \<times> app_state" where
  "delete_all_csvs unlink_ok st session_id =
     (case sessions st session_id of
        Some s \<Rightarrow>
          (let count = length (filter (\<lambda>(file_id, csv_info).
                         case csv_path csv_info of Some p \<Rightarrow> unlink_ok p | None \<Rightarrow> False) (csvs s));
               s1 = s\<lparr>csvs := []\<rparr>;
               st1 = st\<lparr>sessions := (sessions st)(session_id \<mapsto> s1)\<rparr>
           in (deleted_all count,
               if images s1 = [] \<and> documents s1 = []
               then clear_history session_id st1 else st1))
      | None \<Rightarrow> (not_found, st))"

definition delete_all_documents ::
  "(pystr \<Rightarrow> bool) \<Rightarrow> app_state \<Rightarrow> pystr \<Rightarrow> delete_response \<times> app_state" where
  "delete_all_documents unlink_ok st session_id =
     (case sessions st session_id of
        Some s \<Rightarrow>
          (let count = length (filter (\<lambda>(file_id, doc_info). unlink_ok (doc_path doc_info)) (documents s));
               s1 = s\<lparr>documents := []\<rparr>;
               st1 = st\<lparr>sessions := (sessions st)(session_id \<mapsto> s1)\<rparr>
           in (deleted_all count,
               if images s1 = [] \<and> csvs s1 = []
               then clear_history session_id st1 else st1))
      | None \<Rightarrow> (not_found, st))"

subsection \<open>Uploading artifacts (api/v1/endpoints/upload\_*.py)\<close>

text \<open>
  What an upload does to the session store. The collaborators (content-type and extension
  checks, saving the file, validation, parsing, resizing) are the parameter \<open>processed\<close>:
  either the HTTP error the handler raises when one of them fails, or their result.
  \<open>fresh_id\<close> is the \<open>uuid4\<close> drawn when the request names no session, \<open>file_id\<close> the
  eight characters drawn for the artifact, \<open>file_path\<close> the string \<open>str(file_path)\<close> of
  the path that \<open>pathlib\<close> builds from the upload directory, the session id, \<open>file_id\<close>
  and the file name, and the \<open>t_\<close> parameters are the successive readings of
  \<open>time.time()\<close>.
\<close>

definition request_session_id :: "pystr option \<Rightarrow> pystr \<Rightarrow> pystr" where
  "request_session_id session_id fresh_id =
     (case session_id of Some sid \<Rightarrow> if sid \<noteq> [] then sid else fresh_id | None \<Rightarrow> fresh_id)"

definition new_session :: "real \<Rightarrow> real \<Rightarrow> session" where
  "new_session t_created t_activity =
     \<lparr>images = [], csvs = [], documents = [], created_at = t_created, last_activity = t_activity\<rparr>"

record upload_response =
  up_session_id :: pystr
  up_file_id :: pystr
  up_filename :: pystr
  up_total :: nat

definition upload_image ::
  "app_state \<Rightarrow> pystr option \<Rightarrow> pystr \<Rightarrow> pystr \<Rightarrow> pystr \<Rightarrow> pystr \<Rightarrow> (http_error + pystr) \<Rightarrow>
   real \<Rightarrow> real \<Rightarrow> real \<Rightarrow> real \<Rightarrow> (http_error + upload_response) \<times> app_state" where
  "upload_image st session_id fresh_id file_id fname file_path processed t_created t_activity0 t_uploaded t_activity =
     (let sid = request_session_id session_id fresh_id
      in case processed of
           Inl e \<Rightarrow> (Inl e, st)
         | Inr resized \<Rightarrow>
             (let s0 = (case sessions st sid of Some s \<Rightarrow> s
                        | None \<Rightarrow> new_session t_created t_activity0);
                  s1 = s0\<lparr>images := dict_set file_id
                            \<lparr>filename = fname, uploaded_at = t_uploaded, path = file_path,
                             resized_path = (if resized \<noteq> file_path then Some resized else None)\<rparr>
                            (images s0)\<rparr>;
                  s2 = s1\<lparr>last_activity := t_activity\<rparr>
              in (Inr \<lparr>up_session_id = sid, up_file_id = file_id, up_filename = fname,
                       up_total = length (images s2)\<rparr>,
                  st\<lparr>sessions := (sessions st)(sid \<mapsto> s2)\<rparr>)))"

definition upload_csv ::
  "app_state \<Rightarrow> pystr option \<Rightarrow> pystr \<Rightarrow> pystr \<Rightarrow> pystr \<Rightarrow> pystr \<Rightarrow> (http_error + dataframe) \<Rightarrow>
   real \<Rightarrow> real \<Rightarrow> real \<Rightarrow> real \<Rightarrow> (http_error + upload_response) \<times> app_state" where
  "upload_csv st session_id fresh_id file_id fname file_path processed t_created t_activity0 t_uploaded t_activity =
     (let sid = request_session_id session_id fresh_id
      in case processed of
           Inl e \<Rightarrow> (Inl e, st)
         | Inr parsed \<Rightarrow>
             (let s0 = (case sessions st sid of Some s \<Rightarrow> s
                        | None \<Rightarrow> new_session t_created t_activity0);
                  s1 = s0\<lparr>csvs := dict_set file_id
                            \<lparr>filename = fname, uploaded_at = t_uploaded, csv_path = Some file_path,
                             df = parsed\<rparr>
                            (csvs s0)\<rparr>;
                  s2 = s1\<lparr>last_activity := t_activity\<rparr>
              in (Inr \<lparr>up_session_id = sid, up_file_id = file_id, up_filename = fname,
                       up_total = length (csvs s2)\<rparr>,
                  st\<lparr>sessions := (sessions st)(sid \<mapsto> s2)\<rparr>)))"

definition upload_document ::
  "app_state \<Rightarrow> pystr option \<Rightarrow> pystr \<Rightarrow> pystr \<Rightarrow> pystr \<Rightarrow> pystr \<Rightarrow> (http_error + pystr) \<Rightarrow>
   real \<Rightarrow> real \<Rightarrow> real \<Rightarrow> real \<Rightarrow> (http_error + upload_response) \<times> app_state" where
  "upload_document st session_id fresh_id file_id fname file_path processed t_created t_activity0 t_uploaded t_activity =
     (let sid = request_session_id session_id fresh_id
      in case processed of
           Inl e \<Rightarrow> (Inl e, st)
         | Inr parsed \<Rightarrow>
             (let s0 = (case sessions st sid of Some s \<Rightarrow> s
                        | None \<Rightarrow> new_session t_created t_activity0);
                  s1 = s0\<lparr>documents := dict_set file_id
                            \<lparr>filename = fname, uploaded_at = t_uploaded, doc_path = file_path,
                             doc_text = parsed\<rparr>
                            (documents s0)\<rparr>;
                  s2 = s1\<lparr>last_activity := t_activity\<rparr>
              in (Inr \<lparr>up_session_id = sid, up_file_id = file_id, up_filename = fname,
                       up_total = length (documents s2)\<rparr>,
                  st\<lparr>sessions := (sessions st)(sid \<mapsto> s2)\<rparr>)))"

subsection \<open>Reading the history (api/v1/endpoints/chat.py)\<close>

record history_response =
  hr_session_id :: pystr
  total_messages :: nat
  messages :: "message list"

definition get_chat_history :: "app_state \<Rightarrow> pystr \<Rightarrow> int \<Rightarrow> history_response" where
  "get_chat_history st session_id limit =
     (case chat_history st session_id of
        Some history \<Rightarrow>
          \<lparr>hr_session_id = session_id, total_messages = length history,
           messages = (if limit \<noteq> 0 then slice_from (- limit) history else history)\<rparr>
      | None \<Rightarrow> \<lparr>hr_session_id = session_id, total_messages = 0, messages = []\<rparr>)"

section \<open>Context assembly and the chat turn\<close>

subsection \<open>Rendering helpers\<close>

text \<open>\<open>str(n)\<close> of a non-negative integer: its decimal digits.\<close>

fun str_nat :: "nat \<Rightarrow> pystr" where
  "str_nat n = (if n < 10 then [48 + n] else str_nat (n div 10) @ [48 + n mod 10])"

declare str_nat.simps [simp del]

text \<open>
  \<open>str.upper()\<close> on the ASCII letters; it is applied to the three kind names only.
\<close>

definition str_upper :: "pystr \<Rightarrow> pystr" where
  "str_upper s = map (\<lambda>c. if 97 \<le> c \<and> c \<le> 122 then c - 32 else c) s"

text \<open>The code point U+2192 (rightwards arrow) of the index lines.\<close>

definition arrow :: nat where
  "arrow = 8594"

definition nl :: pystr where
  "nl = py ''\<newline>''"

subsection \<open>The ordered file index (api/v1/endpoints/chat.py)\<close>

text \<open>
  The default of \<open>sessions.get(session_id, {...})\<close> has the three mappings only, so the
  session data a turn works on is the three mappings.
\<close>

record session_data =
  sd_images :: "image_info pydict"
  sd_csvs :: "csv_info pydict"
  sd_documents :: "doc_info pydict"

definition get_session_data :: "app_state \<Rightarrow> pystr \<Rightarrow> session_data" where
  "get_session_data st session_id =
     (case sessions st session_id of
        Some s \<Rightarrow> \<lparr>sd_images = images s, sd_csvs = csvs s, sd_documents = documents s\<rparr>
      | None \<Rightarrow> \<lparr>sd_images = [], sd_csvs = [], sd_documents = []\<rparr>)"

record file_entry =
  f_type :: pystr
  f_file_id :: pystr
  f_filename :: pystr
  f_uploaded_at :: real
  f_preview :: "pystr option"

text \<open>
  One pass of the inner loop over a mapping. No upload stores a \<open>preview\<close> key, so
  \<open>finfo.get("preview")\<close> is \<open>None\<close> for every kind.
\<close>

definition file_entries :: "pystr \<Rightarrow> ('a file_info_scheme) pydict \<Rightarrow> file_entry list" where
  "file_entries ftype d =
     map (\<lambda>(fid, finfo). \<lparr>f_type = ftype, f_file_id = fid, f_filename = filename finfo,
                            f_uploaded_at = uploaded_at finfo, f_preview = None\<rparr>) d"

definition collect_files :: "session_data \<Rightarrow> file_entry list" where
  "collect_files sd =
     file_entries (py ''images'') (sd_images sd)
     @ file_entries (py ''csvs'') (sd_csvs sd)
     @ file_entries (py ''documents'') (sd_documents sd)"

text \<open>\<open>all_files.sort(key=lambda f: f["uploaded_at"])\<close>: Python's sort is stable, as is \<open>sort_key\<close>.\<close>

definition all_files :: "session_data \<Rightarrow> file_entry list" where
  "all_files sd = sort_key f_uploaded_at (collect_files sd)"

definition index_line :: "nat \<Rightarrow> file_entry \<Rightarrow> pystr" where
  "index_line i f =
     py ''['' @ str_nat (i + 1) @ py ''] '' @ str_upper (f_type f) @ py '' '' @ [arrow] @ py '' ''
     @ f_filename f"

definition ordered_context :: "file_entry list \<Rightarrow> pystr" where
  "ordered_context fs = str_join nl (map (\<lambda>(i, f). index_line i f) (enumerate 0 fs))"

subsection \<open>Content parts (services/gemini\_service.py)\<close>

text \<open>
  A content part is a text or a loaded image. \<open>Image.open\<close> is the parameter
  \<open>image_open\<close>: \<open>None\<close> stands for any exception it raises. The completion call
  \<open>generate_content\<close> is a parameter as well and may fail.
\<close>

datatype 'img part = Text pystr | Image 'img

datatype py_exception = ValueError | Exception pystr

definition history_parts :: "message list \<Rightarrow> 'img part list" where
  "history_parts history =
     (if history \<noteq> [] then
        (let history_text = str_join nl
               (map (\<lambda>msg. role msg @ py '': '' @ content msg) (slice_to (- 1) history))
         in if history_text \<noteq> []
            then [Text (py ''Previous conversation:'' @ nl @ history_text @ nl)] else [])
      else [])"

definition ordered_parts :: "pystr \<Rightarrow> 'img part list" where
  "ordered_parts ordered_ctx =
     (if ordered_ctx \<noteq> [] then
        [Text (py ''File upload order (earliest first):'' @ nl @ ordered_ctx @ nl
               @ py ''Please refer to files in this order when answering.'' @ nl)]
      else [])"

definition csv_lines :: "pystr \<times> csv_info \<Rightarrow> pystr list" where
  "csv_lines = (\<lambda>(file_id, csv_info).
     [nl @ py ''--- CSV File: '' @ filename csv_info @ py '' (file_id: '' @ file_id @ py '') ---'',
      py ''Shape: '' @ str_nat (shape_rows (df csv_info)) @ py '' rows, ''
        @ str_nat (length (df_columns (df csv_info))) @ py '' columns'',
      py ''Columns: '' @ str_join (py '', '') (df_columns (df csv_info)),
      nl @ py ''First 5 rows:'' @ nl @ head_to_string (df csv_info),
      nl @ py ''Summary statistics:'' @ nl @ describe_to_string (df csv_info)])"

definition csv_parts :: "csv_info pydict \<Rightarrow> 'img part list" where
  "csv_parts csvs_d =
     (if csvs_d \<noteq> [] then
        [Text (str_join nl (py ''CSV Data Context:'' # concat (map csv_lines csvs_d)))]
      else [])"

definition max_chars_per_doc :: int where
  "max_chars_per_doc = 15000"

definition max_total_chars :: int where
  "max_total_chars = 50000"

definition doc_header :: "pystr \<Rightarrow> pystr \<Rightarrow> pystr" where
  "doc_header fname file_id =
     nl @ py ''--- Document: '' @ fname @ py '' (file_id: '' @ file_id @ py '') ---''"

definition truncated_text :: "pystr \<Rightarrow> pystr" where
  "truncated_text txt =
     slice_to max_chars_per_doc txt
     @ (if int (length txt) > max_chars_per_doc
        then nl @ nl @ py ''[Document truncated...]'' else [])"

text \<open>
  The loop over \<open>documents.items()\<close>, with the running \<open>total_chars\<close> and the list
  \<open>doc_context\<close>; \<open>break\<close> ends the recursion.
\<close>

fun doc_loop :: "doc_info pydict \<Rightarrow> int \<Rightarrow> pystr list \<Rightarrow> pystr list" where
  "doc_loop [] total_chars doc_context = doc_context"
| "doc_loop ((file_id, doc_info) # rest) total_chars doc_context =
     (let t = truncated_text (doc_text doc_info)
      in if total_chars + int (length t) > max_total_chars then
           (let remaining = max_total_chars - total_chars
            in if remaining > 1000 then
                 doc_context @
                 [doc_header (filename doc_info) file_id,
                  slice_to remaining t @ nl @ nl @ py ''[Remaining documents truncated...]'']
               else doc_context)
         else doc_loop rest (total_chars + int (length t))
                (doc_context @ [doc_header (filename doc_info) file_id, t]))"

definition doc_context :: "doc_info pydict \<Rightarrow> pystr list" where
  "doc_context docs = doc_loop docs 0 [py ''Document Context:'']"

definition document_parts :: "doc_info pydict \<Rightarrow> 'img part list" where
  "document_parts docs =
     (if docs \<noteq> [] then [Text (str_join nl (doc_context docs))] else [])"

text \<open>\<open>image_info.get('resized_path') or image_info['path']\<close>: an empty string is falsy.\<close>

definition image_path :: "image_info \<Rightarrow> pystr" where
  "image_path image_info =
     (case resized_path image_info of
        Some p \<Rightarrow> if p \<noteq> [] then p else path image_info
      | None \<Rightarrow> path image_info)"

fun image_loop :: "(pystr \<Rightarrow> 'img option) \<Rightarrow> image_info pydict \<Rightarrow> 'img part list" where
  "image_loop image_open [] = []"
| "image_loop image_open ((file_id, image_info) # rest) =
     (case image_open (image_path image_info) of
        Some img \<Rightarrow>
          [Image img,
           Text (py ''[Image: '' @ filename image_info @ py '' (file_id: '' @ file_id @ py '')]'')]
      | None \<Rightarrow> [Text (py ''[Failed to load image: '' @ filename image_info @ py '']'')])
     @ image_loop image_open rest"

definition image_parts :: "(pystr \<Rightarrow> 'img option) \<Rightarrow> image_info pydict \<Rightarrow> 'img part list" where
  "image_parts image_open imgs =
     (if imgs \<noteq> [] then
        image_loop image_open imgs
        @ (if length imgs > 1 then
             [Text (nl @ py ''Note: '' @ str_nat (length imgs) @ py '' images have been uploaded. ''
                    @ py ''Please refer to them by filename when answering.'')]
           else [])
      else [])"

definition context_parts ::
  "(pystr \<Rightarrow> 'img option) \<Rightarrow> pystr \<Rightarrow> message list \<Rightarrow> session_data \<Rightarrow> pystr \<Rightarrow> 'img part list" where
  "context_parts image_open message history sd ordered_ctx =
     history_parts history
     @ ordered_parts ordered_ctx
     @ csv_parts (sd_csvs sd)
     @ document_parts (sd_documents sd)
     @ image_parts image_open (sd_images sd)
     @ [Text (nl @ py ''User question: '' @ message)]"

text \<open>\<open>gemini_service.chat\<close>: an exception of the completion call is re-raised.\<close>

definition gemini_chat ::
  "('img part list \<Rightarrow> py_exception + pystr) \<Rightarrow> (pystr \<Rightarrow> 'img option) \<Rightarrow>
   pystr \<Rightarrow> message list \<Rightarrow> session_data \<Rightarrow> pystr \<Rightarrow> py_exception + pystr" where
  "gemini_chat generate_content image_open message history sd ordered_ctx =
     generate_content (context_parts image_open message history sd ordered_ctx)"

subsection \<open>The chat endpoint (api/v1/endpoints/chat.py)\<close>

record chat_request =
  session_id :: pystr
  message :: pystr

record chat_metadata =
  total_files :: nat
  images_used :: nat
  csvs_used :: nat
  documents_used :: nat
  file_order :: "pystr list"

record chat_response =
  response :: pystr
  cr_session_id :: pystr
  metadata :: chat_metadata

text \<open>
  The three readings of \<open>time.time()\<close> are the parameters \<open>t_user\<close>, \<open>t_reply\<close> and
  \<open>t_activity\<close>. \<open>history\<close> is the list stored in \<open>chat_history\<close>, so the user
  message is in the store when the completion fails.
\<close>

definition chat ::
  "('img part list \<Rightarrow> py_exception + pystr) \<Rightarrow> (pystr \<Rightarrow> 'img option) \<Rightarrow>
   real \<Rightarrow> real \<Rightarrow> real \<Rightarrow> app_state \<Rightarrow> chat_request \<Rightarrow>
   (http_error + chat_response) \<times> app_state" where
  "chat generate_content image_open t_user t_reply t_activity st payload =
     (let sid = session_id payload;
          user_message = message payload;
          history0 = (case chat_history st sid of Some h \<Rightarrow> h | None \<Rightarrow> []);
          sd = get_session_data st sid;
          history = history0 @
            [\<lparr>role = py ''user'', content = user_message, timestamp = t_user,
              msg_context = Some \<lparr>images_count = length (sd_images sd),
                                  csvs_count = length (sd_csvs sd),
                                  documents_count = length (sd_documents sd)\<rparr>\<rparr>];
          st1 = st\<lparr>chat_history := (chat_history st)(sid \<mapsto> history)\<rparr>;
          files = all_files sd
      in case gemini_chat generate_content image_open user_message (slice_from (- 10) history)
                sd (ordered_context files) of
           Inl e \<Rightarrow> (Inl (HTTPException 500), st1)
         | Inr reply \<Rightarrow>
             (let history' = history @
                    [\<lparr>role = py ''assistant'', content = reply, timestamp = t_reply,
                      msg_context = None\<rparr>];
                  st2 = st1\<lparr>chat_history := (chat_history st1)(sid \<mapsto> history')\<rparr>;
                  st3 = (case sessions st2 sid of
                           Some s \<Rightarrow> st2\<lparr>sessions := (sessions st2)
                                          (sid \<mapsto> s\<lparr>last_activity := t_activity\<rparr>)\<rparr>
                         | None \<Rightarrow> st2)
              in (Inr \<lparr>response = reply, cr_session_id = sid,
                       metadata = \<lparr>total_files = length files,
                                    images_used = length (sd_images sd),
                                    csvs_used = length (sd_csvs sd),
                                    documents_used = length (sd_documents sd),
                                    file_order = map f_filename files\<rparr>\<rparr>, st3)))"

section \<open>Example values\<close>

definition img0 :: image_info where
  "img0 = \<lparr>filename = py ''cat.png'', uploaded_at = 1, path = py ''uploads/images/s_a_cat.png'', resized_path = None\<rparr>"

definition doc0 :: doc_info where
  "doc0 = \<lparr>filename = py ''notes.txt'', uploaded_at = 2, doc_path = py ''uploads/documents/s_d_notes.txt'', doc_text = py ''hello''\<rparr>"

definition msg0 :: message where
  "msg0 = \<lparr>role = py ''user'', content = py ''hi'', timestamp = 3, msg_context = None\<rparr>"

definition session1 :: session where
  "session1 = \<lparr>images = [(py ''a'', img0)], csvs = [], documents = [], created_at = 0, last_activity = 1\<rparr>"

definition session2 :: session where
  "session2 = \<lparr>images = [(py ''a'', img0)], csvs = [], documents = [(py ''d'', doc0)], created_at = 0, last_activity = 2\<rparr>"

definition state1 :: app_state where
  "state1 = \<lparr>sessions = [py ''s'' \<mapsto> session1], chat_history = [py ''s'' \<mapsto> [msg0]]\<rparr>"

definition state2 :: app_state where
  "state2 = \<lparr>sessions = [py ''s'' \<mapsto> session2], chat_history = [py ''s'' \<mapsto> [msg0]]\<rparr>"

definition img_x :: image_info where
  "img_x = \<lparr>filename = py ''x.png'', uploaded_at = 1, path = py ''uploads/images/s_b_x.png'', resized_path = None\<rparr>"

definition img_y :: image_info where
  "img_y = \<lparr>filename = py ''y.png'', uploaded_at = 1, path = py ''uploads/images/s_a_y.png'', resized_path = None\<rparr>"

definition tie_data :: session_data where
  "tie_data = \<lparr>sd_images = [(py ''b'', img_x), (py ''a'', img_y)], sd_csvs = [], sd_documents = []\<rparr>"

definition tie_data' :: session_data where
  "tie_data' = \<lparr>sd_images = [(py ''a'', img_y), (py ''b'', img_x)], sd_csvs = [], sd_documents = []\<rparr>"

definition img_late :: image_info where
  "img_late = \<lparr>filename = py ''late.png'', uploaded_at = 3, path = py ''uploads/images/s_a_late.png'', resized_path = None\<rparr>"

definition img_early :: image_info where
  "img_early = \<lparr>filename = py ''early.png'', uploaded_at = 1, path = py ''uploads/images/s_b_early.png'', resized_path = None\<rparr>"

definition doc_mid :: doc_info where
  "doc_mid = \<lparr>filename = py ''mid.txt'', uploaded_at = 2, doc_path = py ''uploads/documents/s_d_mid.txt'', doc_text = py ''hello''\<rparr>"

definition order_data :: session_data where
  "order_data = \<lparr>sd_images = [(py ''a'', img_late), (py ''b'', img_early)], sd_csvs = [],
                  sd_documents = [(py ''d'', doc_mid)]\<rparr>"

definition order_data' :: session_data where
  "order_data' = \<lparr>sd_images = [(py ''b'', img_early), (py ''a'', img_late)], sd_csvs = [],
                   sd_documents = [(py ''d'', doc_mid)]\<rparr>"

definition sized_doc :: "nat \<Rightarrow> pystr \<Rightarrow> doc_info" where
  "sized_doc n fname = \<lparr>filename = fname, uploaded_at = 0, doc_path = py ''uploads/documents/'' @ fname,
                        doc_text = replicate n 97\<rparr>"

definition three_docs :: "doc_info pydict" where
  "three_docs = [(py ''d1'', sized_doc 20000 (py ''a.txt'')), (py ''d2'', sized_doc 20000 (py ''b.txt'')),
                 (py ''d3'', sized_doc 20000 (py ''c.txt''))]"

definition edge_docs :: "doc_info pydict" where
  "edge_docs = [(py ''d1'', sized_doc 15000 (py ''a.txt'')), (py ''d2'', sized_doc 15000 (py ''b.txt'')),
                (py ''d3'', sized_doc 15000 (py ''c.txt'')), (py ''d4'', sized_doc 4000 (py ''d.txt'')),
                (py ''d5'', sized_doc 2000 (py ''e.txt''))]"

definition four_docs :: "doc_info pydict" where
  "four_docs = three_docs @ [(py ''d4'', sized_doc 20000 (py ''d.txt''))]"

definition empty_state :: app_state where
  "empty_state = \<lparr>sessions = Map.empty, chat_history = Map.empty\<rparr>"

definition hello :: chat_request where
  "hello = \<lparr>session_id = py ''s'', message = py ''hello''\<rparr>"

definition reply_ok :: "unit part list \<Rightarrow> py_exception + pystr" where
  "reply_ok parts = Inr (py ''ok'')"

definition no_image :: "pystr \<Rightarrow> unit option" where
  "no_image p = None"

definition only_x :: "pystr \<Rightarrow> unit option" where
  "only_x p = (if p = path img_x then Some () else None)"

definition two_images :: session_data where
  "two_images = \<lparr>sd_images = [(py ''a'', img0), (py ''b'', img_x)], sd_csvs = [], sd_documents = []\<rparr>"

section \<open>Text chunking (utils/text\_splitter.py)\<close>

text \<open>
  \<open>str.strip()\<close> removes leading and trailing white space; these are the code points
  for which \<open>str.isspace\<close> holds.
\<close>

definition is_space :: "nat \<Rightarrow> bool" where
  "is_space c \<longleftrightarrow>
     (9 \<le> c \<and> c \<le> 13) \<or> (28 \<le> c \<and> c \<le> 32) \<or> c = 133 \<or> c = 160 \<or> c = 5760
     \<or> (8192 \<le> c \<and> c \<le> 8202) \<or> c = 8232 \<or> c = 8233 \<or> c = 8239 \<or> c = 8287 \<or> c = 12288"

definition strip :: "pystr \<Rightarrow> pystr" where
  "strip s = rev (dropWhile is_space (rev (dropWhile is_space s)))"

text \<open>
  \<open>text.split(sep)\<close>: the text is cut at the occurrences of \<open>sep\<close> found from left to
  right without overlap; \<open>acc\<close> holds the piece being read. An empty separator raises
  \<open>ValueError\<close>.
\<close>

function split_acc :: "pystr \<Rightarrow> pystr \<Rightarrow> pystr \<Rightarrow> pystr list" where
  "split_acc sep acc [] = [acc]"
| "split_acc sep acc (c # cs) =
     (if sep \<noteq> [] \<and> prefix sep (c # cs)
      then acc # split_acc sep [] (drop (length sep) (c # cs))
      else split_acc sep (acc @ [c]) cs)"
  by pat_completeness auto
termination
  by (relation "measure (\<lambda>(sep, acc, txt). length txt)") auto

definition str_split :: "pystr \<Rightarrow> pystr \<Rightarrow> py_exception + pystr list" where
  "str_split sep txt = (if sep = [] then Inl ValueError else Inr (split_acc sep [] txt))"

record text_splitter =
  chunk_size :: int
  chunk_overlap :: int
  separator :: pystr

record recursive_text_splitter = text_splitter +
  separators :: "pystr list"

text \<open>\<open>RecursiveTextSplitter.__init__\<close> (the base class sets the default \<open>separator\<close>).\<close>

definition RecursiveTextSplitter :: "int \<Rightarrow> int \<Rightarrow> recursive_text_splitter" where
  "RecursiveTextSplitter n overlap =
     \<lparr>chunk_size = n, chunk_overlap = overlap, separator = nl @ nl,
      separators = [nl @ nl, nl, py ''. '', py '' '']\<rparr>"

text \<open>
  The loop of \<open>_split_recursive\<close> over \<open>splits\<close>, with the list \<open>chunks\<close> and the
  running \<open>current_chunk\<close>; \<open>recurse\<close> is the recursive call on the remaining
  separators.
\<close>

fun split_loop ::
  "(pystr \<Rightarrow> py_exception + pystr list) \<Rightarrow> 'a text_splitter_scheme \<Rightarrow> pystr \<Rightarrow> pystr list \<Rightarrow>
   pystr list \<Rightarrow> pystr \<Rightarrow> py_exception + pystr list \<times> pystr" where
  "split_loop recurse self sep [] chunks current_chunk = Inr (chunks, current_chunk)"
| "split_loop recurse self sep (split # splits) chunks current_chunk =
     (if int (length current_chunk) + int (length split) + int (length sep) > chunk_size self then
        (if current_chunk \<noteq> [] then
           (if chunk_overlap self > 0 then
              split_loop recurse self sep splits (chunks @ [strip current_chunk])
                (slice_from (- chunk_overlap self) current_chunk @ sep @ split)
            else split_loop recurse self sep splits (chunks @ [strip current_chunk]) split)
         else
           (if int (length split) > chunk_size self then
              (case recurse split of
                 Inl e \<Rightarrow> Inl e
               | Inr sub_chunks \<Rightarrow>
                   split_loop recurse self sep splits (chunks @ sub_chunks) current_chunk)
            else split_loop recurse self sep splits chunks split))
      else
        (if current_chunk \<noteq> [] then
           split_loop recurse self sep splits chunks (current_chunk @ sep @ split)
         else split_loop recurse self sep splits chunks split))"

fun split_recursive ::
  "'a text_splitter_scheme \<Rightarrow> pystr \<Rightarrow> pystr list \<Rightarrow> py_exception + pystr list" where
  "split_recursive self txt [] = Inr (if txt \<noteq> [] then [txt] else [])"
| "split_recursive self txt (sep # remaining_separators) =
     (if int (length txt) \<le> chunk_size self then Inr (if txt \<noteq> [] then [txt] else [])
      else
        (case str_split sep txt of
           Inl e \<Rightarrow> Inl e
         | Inr splits \<Rightarrow>
             (case split_loop (\<lambda>s. split_recursive self s remaining_separators) self sep splits [] [] of
                Inl e \<Rightarrow> Inl e
              | Inr (chunks, current_chunk) \<Rightarrow>
                  Inr (if current_chunk \<noteq> [] then chunks @ [strip current_chunk] else chunks))))"

text \<open>\<open>RecursiveTextSplitter.split_text\<close>\<close>

definition split_text :: "recursive_text_splitter \<Rightarrow> pystr \<Rightarrow> py_exception + pystr list" where
  "split_text self txt = split_recursive self txt (separators self)"

subsection \<open>The base class \<open>TextSplitter\<close>\<close>

definition TextSplitter :: "int \<Rightarrow> int \<Rightarrow> pystr \<Rightarrow> text_splitter" where
  "TextSplitter n overlap sep = \<lparr>chunk_size = n, chunk_overlap = overlap, separator = sep\<rparr>"

text \<open>
  \<open>re.split(r'(?<=[.!?])\s+', split)\<close>: the text is cut at every maximal run of white
  space that follows a full stop, an exclamation mark or a question mark; \<open>acc\<close> holds
  the piece being read, whose last character is the one the look-behind tests.
\<close>

function sentences_acc :: "pystr \<Rightarrow> pystr \<Rightarrow> pystr list" where
  "sentences_acc acc [] = [acc]"
| "sentences_acc acc (c # cs) =
     (if is_space c \<and> acc \<noteq> [] \<and> last acc \<in> {46, 33, 63}
      then acc # sentences_acc [] (dropWhile is_space cs)
      else sentences_acc (acc @ [c]) cs)"
  by pat_completeness auto
termination
  by (relation "measure (\<lambda>(acc, rest). length rest)")
     (auto simp: length_dropWhile_le less_Suc_eq_le)

text \<open>The inner loop of \<open>split_text\<close> over the sentences of a split that is too long.\<close>

fun sentence_loop ::
  "'a text_splitter_scheme \<Rightarrow> pystr list \<Rightarrow> pystr list \<Rightarrow> pystr \<Rightarrow> pystr list \<times> pystr" where
  "sentence_loop self [] chunks current_chunk = (chunks, current_chunk)"
| "sentence_loop self (sentence # sentences) chunks current_chunk =
     (if int (length current_chunk) + int (length sentence) > chunk_size self then
        (if current_chunk \<noteq> [] then
           sentence_loop self sentences (chunks @ [strip current_chunk]) sentence
         else sentence_loop self sentences chunks current_chunk)
      else sentence_loop self sentences chunks (current_chunk @ py '' '' @ sentence))"

text \<open>The outer loop of \<open>split_text\<close> over the splits.\<close>

fun merge_loop ::
  "'a text_splitter_scheme \<Rightarrow> pystr list \<Rightarrow> pystr list \<Rightarrow> pystr \<Rightarrow> pystr list \<times> pystr" where
  "merge_loop self [] chunks current_chunk = (chunks, current_chunk)"
| "merge_loop self (split # splits) chunks current_chunk =
     (if int (length current_chunk) + int (length split) > chunk_size self then
        (let chunks1 = (if current_chunk \<noteq> [] then chunks @ [strip current_chunk] else chunks);
             current1 = (if current_chunk \<noteq> [] then
                           (if chunk_overlap self > 0
                            then slice_from (- chunk_overlap self) current_chunk else [])
                         else current_chunk)
         in if int (length split) > chunk_size self then
              merge_loop self splits
                (fst (sentence_loop self (sentences_acc [] split) chunks1 current1))
                (snd (sentence_loop self (sentences_acc [] split) chunks1 current1))
            else merge_loop self splits chunks1 split)
      else merge_loop self splits chunks (current_chunk @ separator self @ split))"

text \<open>\<open>TextSplitter.split_text\<close>; the last line drops the empty chunks.\<close>

definition text_splitter_split_text ::
  "'a text_splitter_scheme \<Rightarrow> pystr \<Rightarrow> py_exception + pystr list" where
  "text_splitter_split_text self txt =
     (case str_split (separator self) txt of
        Inl e \<Rightarrow> Inl e
      | Inr splits \<Rightarrow>
          (let chunks = fst (merge_loop self splits [] []);
               current_chunk = snd (merge_loop self splits [] [])
           in Inr (filter (\<lambda>c. c \<noteq> [])
                     (if current_chunk \<noteq> [] then chunks @ [strip current_chunk] else chunks))))"

text \<open>
  The relation between a text and its chunks that the round trip is stated with:
  \<open>weave D chunks w\<close> holds when \<open>w\<close> is the chunks in their order, with a gap before
  the first chunk, between two chunks and after the last one, and every character of
  every gap satisfies \<open>D\<close>.
\<close>

inductive weave :: "(nat \<Rightarrow> bool) \<Rightarrow> pystr list \<Rightarrow> pystr \<Rightarrow> bool" for D where
  gap: "list_all D g \<Longrightarrow> weave D [] g"
| chunk: "list_all D g \<Longrightarrow> weave D cs w \<Longrightarrow> weave D (c # cs) (g @ c @ w)"

section \<open>Results\<close>

subsection \<open>RateLimiter\<close>

lemma dispatch_rejected:
  "int (length (filter (\<lambda>t. now - t < 60) (requests rl k))) \<ge> requests_per_minute rl \<Longrightarrow>
   dispatch rl k now =
     (Inl (HTTPException 429),
      rl\<lparr>requests := (requests rl)(k := filter (\<lambda>t. now - t < 60) (requests rl k))\<rparr>)"
  by (simp add: dispatch_def Let_def)

lemma dispatch_admitted:
  "int (length (filter (\<lambda>t. now - t < 60) (requests rl k))) < requests_per_minute rl \<Longrightarrow>
   dispatch rl k now =
     (Inr (requests_per_minute rl - int (length (filter (\<lambda>t. now - t < 60) (requests rl k))) - 1),
      rl\<lparr>requests := (requests rl)(k := filter (\<lambda>t. now - t < 60) (requests rl k) @ [now])\<rparr>)"
  by (simp add: dispatch_def Let_def)

text \<open>
  C4. Admission for a client key first purges the recorded timestamps \<open>t\<close> with
  \<open>now - t \<ge> 60\<close>, rejects exactly when the remaining count is at least the limit, and
  otherwise appends \<open>now\<close> and accepts; the other keys and the limit are untouched.
  With limit 3 and requests at 0, 1, 2, 3, 61 the first three are admitted, the one at 3
  is rejected and the one at 61 is admitted.
\<close>

theorem C4_rate_limiter_admission:
  "(let kept = filter (\<lambda>t. \<not> now - t \<ge> 60) (requests rl k);
        res = fst (dispatch rl k now);
        rl' = snd (dispatch rl k now)
    in (res = Inl (HTTPException 429) \<longleftrightarrow> int (length kept) \<ge> requests_per_minute rl)
     \<and> (isl res \<longleftrightarrow> int (length kept) \<ge> requests_per_minute rl)
     \<and> requests rl' k = (if isl res then kept else kept @ [now])
     \<and> (\<forall>k'. k' \<noteq> k \<longrightarrow> requests rl' k' = requests rl k')
     \<and> requests_per_minute rl' = requests_per_minute rl)
   \<and> dispatch_all (new_limiter 3) [(c, 0), (c, 1), (c, 2), (c, 3), (c, 61)]
       = [True, True, True, False, True]"
proof -
  have eq: "(\<lambda>t. \<not> now - t \<ge> 60) = (\<lambda>t. now - t < 60)"
    by (auto simp: fun_eq_iff)
  have gen: "(let kept = filter (\<lambda>t. \<not> now - t \<ge> 60) (requests rl k);
        res = fst (dispatch rl k now);
        rl' = snd (dispatch rl k now)
    in (res = Inl (HTTPException 429) \<longleftrightarrow> int (length kept) \<ge> requests_per_minute rl)
     \<and> (isl res \<longleftrightarrow> int (length kept) \<ge> requests_per_minute rl)
     \<and> requests rl' k = (if isl res then kept else kept @ [now])
     \<and> (\<forall>k'. k' \<noteq> k \<longrightarrow> requests rl' k' = requests rl k')
     \<and> requests_per_minute rl' = requests_per_minute rl)"
  proof (cases "int (length (filter (\<lambda>t. now - t < 60) (requests rl k))) \<ge> requests_per_minute rl")
    case True
    then show ?thesis
      unfolding eq Let_def by (simp add: dispatch_rejected)
  next
    case False
    then have "int (length (filter (\<lambda>t. now - t < 60) (requests rl k))) < requests_per_minute rl"
      by simp
    then show ?thesis
      unfolding eq Let_def by (simp add: dispatch_admitted)
  qed
  have run: "dispatch_all (new_limiter 3) [(c, 0), (c, 1), (c, 2), (c, 3), (c, 61)]
       = [True, True, True, False, True]"
    by (simp add: dispatch_def new_limiter_def Let_def)
  from gen run show ?thesis by blast
qed

theorem C4_rate_limiter_admission_witness:
  "fst (dispatch (new_limiter 1) (py ''a'') 5) = Inr 0
   \<and> requests (snd (dispatch (new_limiter 1) (py ''a'') 5)) (py ''a'') = [5]
   \<and> requests (snd (dispatch (new_limiter 1) (py ''a'') 5)) (py ''b'') = []"
  using C4_rate_limiter_admission [of 5 "new_limiter 1" "py ''a''" "py ''a''"]
  by (simp add: Let_def new_limiter_def dispatch_def py_def)

subsection \<open>Deleting artifacts and reading the history\<close>

lemma clear_history_sessions: "sessions (clear_history k st) = sessions st"
  by (simp add: clear_history_def)

lemma clear_history_at: "chat_history (clear_history k st) k = None"
  by (auto simp: clear_history_def)

lemma clear_history_other: "k' \<noteq> k \<Longrightarrow> chat_history (clear_history k st) k' = chat_history st k'"
  by (simp add: clear_history_def)

lemma delete_single_image_found:
  assumes "sessions st sid = Some s" and "fid \<in> dict_keys (images s)"
  shows "delete_single_image st sid fid =
     (Inr (deleted_one fid),
      if dict_del fid (images s) = [] \<and> csvs s = [] \<and> documents s = []
      then clear_history sid (st\<lparr>sessions := (sessions st)(sid \<mapsto> s\<lparr>images := dict_del fid (images s)\<rparr>)\<rparr>)
      else st\<lparr>sessions := (sessions st)(sid \<mapsto> s\<lparr>images := dict_del fid (images s)\<rparr>)\<rparr>)"
  using assms unfolding delete_single_image_def Let_def by simp

lemma delete_single_csv_found:
  assumes "sessions st sid = Some s" and "fid \<in> dict_keys (csvs s)"
  shows "delete_single_csv st sid fid =
     (Inr (deleted_one fid),
      if images s = [] \<and> dict_del fid (csvs s) = [] \<and> documents s = []
      then clear_history sid (st\<lparr>sessions := (sessions st)(sid \<mapsto> s\<lparr>csvs := dict_del fid (csvs s)\<rparr>)\<rparr>)
      else st\<lparr>sessions := (sessions st)(sid \<mapsto> s\<lparr>csvs := dict_del fid (csvs s)\<rparr>)\<rparr>)"
  using assms unfolding delete_single_csv_def Let_def by simp

lemma delete_single_document_found:
  assumes "sessions st sid = Some s" and "fid \<in> dict_keys (documents s)"
  shows "delete_single_document st sid fid =
     (Inr (deleted_one fid),
      if images s = [] \<and> csvs s = [] \<and> dict_del fid (documents s) = []
      then clear_history sid (st\<lparr>sessions := (sessions st)(sid \<mapsto> s\<lparr>documents := dict_del fid (documents s)\<rparr>)\<rparr>)
      else st\<lparr>sessions := (sessions st)(sid \<mapsto> s\<lparr>documents := dict_del fid (documents s)\<rparr>)\<rparr>)"
  using assms unfolding delete_single_document_def Let_def by simp

lemma cascade_post:
  assumes r: "st' = (if e then clear_history sid st1 else st1)"
    and s1: "sessions st1 = m" and h1: "chat_history st1 = chat_history st"
  shows "sessions st' = m
       \<and> (if e then chat_history st' sid = None else chat_history st' = chat_history st)
       \<and> (\<forall>k. k \<noteq> sid \<longrightarrow> chat_history st' k = chat_history st k)"
proof (cases e)
  case True
  with r have "st' = clear_history sid st1" by simp
  with s1 h1 True show ?thesis
    by (simp add: clear_history_sessions clear_history_at clear_history_other)
next
  case False
  with r have "st' = st1" by simp
  with s1 h1 False show ?thesis by simp
qed

text \<open>
  C1. Deleting one image, CSV or document of an existing session removes it from its
  mapping; the test that all three mappings are empty is made on the session after the
  removal. When it holds, the history entry of the session is deleted; when an artifact
  of any kind remains, the history store is unchanged. The histories of other sessions
  are unchanged in both cases.
\<close>

theorem C1_single_delete_cascade:
  assumes "sessions st sid = Some s"
  shows
   "(fid \<in> dict_keys (images s) \<longrightarrow>
      (let st' = snd (delete_single_image st sid fid);
           s' = s\<lparr>images := dict_del fid (images s)\<rparr>
       in fst (delete_single_image st sid fid) = Inr (deleted_one fid)
        \<and> sessions st' = (sessions st)(sid \<mapsto> s')
        \<and> (if images s' = [] \<and> csvs s' = [] \<and> documents s' = []
            then chat_history st' sid = None
            else chat_history st' = chat_history st)
        \<and> (\<forall>k. k \<noteq> sid \<longrightarrow> chat_history st' k = chat_history st k)))
  \<and> (fid \<in> dict_keys (csvs s) \<longrightarrow>
      (let st' = snd (delete_single_csv st sid fid);
           s' = s\<lparr>csvs := dict_del fid (csvs s)\<rparr>
       in fst (delete_single_csv st sid fid) = Inr (deleted_one fid)
        \<and> sessions st' = (sessions st)(sid \<mapsto> s')
        \<and> (if images s' = [] \<and> csvs s' = [] \<and> documents s' = []
            then chat_history st' sid = None
            else chat_history st' = chat_history st)
        \<and> (\<forall>k. k \<noteq> sid \<longrightarrow> chat_history st' k = chat_history st k)))
  \<and> (fid \<in> dict_keys (documents s) \<longrightarrow>
      (let st' = snd (delete_single_document st sid fid);
           s' = s\<lparr>documents := dict_del fid (documents s)\<rparr>
       in fst (delete_single_document st sid fid) = Inr (deleted_one fid)
        \<and> sessions st' = (sessions st)(sid \<mapsto> s')
        \<and> (if images s' = [] \<and> csvs s' = [] \<and> documents s' = []
            then chat_history st' sid = None
            else chat_history st' = chat_history st)
        \<and> (\<forall>k. k \<noteq> sid \<longrightarrow> chat_history st' k = chat_history st k)))"
proof (intro conjI impI)
  assume k: "fid \<in> dict_keys (images s)"
  note f = delete_single_image_found [OF assms k]
  have "snd (delete_single_image st sid fid) =
      (if dict_del fid (images s) = [] \<and> csvs s = [] \<and> documents s = []
       then clear_history sid (st\<lparr>sessions := (sessions st)(sid \<mapsto> s\<lparr>images := dict_del fid (images s)\<rparr>)\<rparr>)
       else st\<lparr>sessions := (sessions st)(sid \<mapsto> s\<lparr>images := dict_del fid (images s)\<rparr>)\<rparr>)"
    by (simp only: f snd_conv)
  then have post: "sessions (snd (delete_single_image st sid fid))
        = (sessions st)(sid \<mapsto> s\<lparr>images := dict_del fid (images s)\<rparr>)
     \<and> (if dict_del fid (images s) = [] \<and> csvs s = [] \<and> documents s = []
         then chat_history (snd (delete_single_image st sid fid)) sid = None
         else chat_history (snd (delete_single_image st sid fid)) = chat_history st)
     \<and> (\<forall>k. k \<noteq> sid \<longrightarrow> chat_history (snd (delete_single_image st sid fid)) k = chat_history st k)"
    by (rule cascade_post) simp_all
  have ff: "fst (delete_single_image st sid fid) = Inr (deleted_one fid)"
    by (simp only: f fst_conv)
  show "let st' = snd (delete_single_image st sid fid);
           s' = s\<lparr>images := dict_del fid (images s)\<rparr>
       in fst (delete_single_image st sid fid) = Inr (deleted_one fid)
        \<and> sessions st' = (sessions st)(sid \<mapsto> s')
        \<and> (if images s' = [] \<and> csvs s' = [] \<and> documents s' = []
            then chat_history st' sid = None
            else chat_history st' = chat_history st)
        \<and> (\<forall>k. k \<noteq> sid \<longrightarrow> chat_history st' k = chat_history st k)"
    unfolding Let_def using ff post by simp
next
  assume k: "fid \<in> dict_keys (csvs s)"
  note f = delete_single_csv_found [OF assms k]
  have "snd (delete_single_csv st sid fid) =
      (if images s = [] \<and> dict_del fid (csvs s) = [] \<and> documents s = []
       then clear_history sid (st\<lparr>sessions := (sessions st)(sid \<mapsto> s\<lparr>csvs := dict_del fid (csvs s)\<rparr>)\<rparr>)
       else st\<lparr>sessions := (sessions st)(sid \<mapsto> s\<lparr>csvs := dict_del fid (csvs s)\<rparr>)\<rparr>)"
    by (simp only: f snd_conv)
  then have post: "sessions (snd (delete_single_csv st sid fid))
        = (sessions st)(sid \<mapsto> s\<lparr>csvs := dict_del fid (csvs s)\<rparr>)
     \<and> (if images s = [] \<and> dict_del fid (csvs s) = [] \<and> documents s = []
         then chat_history (snd (delete_single_csv st sid fid)) sid = None
         else chat_history (snd (delete_single_csv st sid fid)) = chat_history st)
     \<and> (\<forall>k. k \<noteq> sid \<longrightarrow> chat_history (snd (delete_single_csv st sid fid)) k = chat_history st k)"
    by (rule cascade_post) simp_all
  have ff: "fst (delete_single_csv st sid fid) = Inr (deleted_one fid)"
    by (simp only: f fst_conv)
  show "let st' = snd (delete_single_csv st sid fid);
           s' = s\<lparr>csvs := dict_del fid (csvs s)\<rparr>
       in fst (delete_single_csv st sid fid) = Inr (deleted_one fid)
        \<and> sessions st' = (sessions st)(sid \<mapsto> s')
        \<and> (if images s' = [] \<and> csvs s' = [] \<and> documents s' = []
            then chat_history st' sid = None
            else chat_history st' = chat_history st)
        \<and> (\<forall>k. k \<noteq> sid \<longrightarrow> chat_history st' k = chat_history st k)"
    unfolding Let_def using ff post by simp
next
  assume k: "fid \<in> dict_keys (documents s)"
  note f = delete_single_document_found [OF assms k]
  have "snd (delete_single_document st sid fid) =
      (if images s = [] \<and> csvs s = [] \<and> dict_del fid (documents s) = []
       then clear_history sid (st\<lparr>sessions := (sessions st)(sid \<mapsto> s\<lparr>documents := dict_del fid (documents s)\<rparr>)\<rparr>)
       else st\<lparr>sessions := (sessions st)(sid \<mapsto> s\<lparr>documents := dict_del fid (documents s)\<rparr>)\<rparr>)"
    by (simp only: f snd_conv)
  then have post: "sessions (snd (delete_single_document st sid fid))
        = (sessions st)(sid \<mapsto> s\<lparr>documents := dict_del fid (documents s)\<rparr>)
     \<and> (if images s = [] \<and> csvs s = [] \<and> dict_del fid (documents s) = []
         then chat_history (snd (delete_single_document st sid fid)) sid = None
         else chat_history (snd (delete_single_document st sid fid)) = chat_history st)
     \<and> (\<forall>k. k \<noteq> sid \<longrightarrow> chat_history (snd (delete_single_document st sid fid)) k = chat_history st k)"
    by (rule cascade_post) simp_all
  have ff: "fst (delete_single_document st sid fid) = Inr (deleted_one fid)"
    by (simp only: f fst_conv)
  show "let st' = snd (delete_single_document st sid fid);
           s' = s\<lparr>documents := dict_del fid (documents s)\<rparr>
       in fst (delete_single_document st sid fid) = Inr (deleted_one fid)
        \<and> sessions st' = (sessions st)(sid \<mapsto> s')
        \<and> (if images s' = [] \<and> csvs s' = [] \<and> documents s' = []
            then chat_history st' sid = None
            else chat_history st' = chat_history st)
        \<and> (\<forall>k. k \<noteq> sid \<longrightarrow> chat_history st' k = chat_history st k)"
    unfolding Let_def using ff post by simp
qed

theorem C1_single_delete_cascade_witness:
  "sessions state1 (py ''s'') = Some session1 \<and> py ''a'' \<in> dict_keys (images session1)
   \<and> chat_history state1 (py ''s'') = Some [msg0]
   \<and> chat_history (snd (delete_single_image state1 (py ''s'') (py ''a''))) (py ''s'') = None
   \<and> sessions state2 (py ''s'') = Some session2 \<and> py ''a'' \<in> dict_keys (images session2)
   \<and> chat_history (snd (delete_single_image state2 (py ''s'') (py ''a''))) (py ''s'') = Some [msg0]"
proof -
  have h1: "sessions state1 (py ''s'') = Some session1"
    by (simp add: state1_def)
  have h2: "sessions state2 (py ''s'') = Some session2"
    by (simp add: state2_def)
  have k1: "py ''a'' \<in> dict_keys (images session1)"
    by (simp add: session1_def dict_keys_def)
  have k2: "py ''a'' \<in> dict_keys (images session2)"
    by (simp add: session2_def dict_keys_def)
  have e1: "images (session1\<lparr>images := dict_del (py ''a'') (images session1)\<rparr>) = []"
    by (simp add: session1_def dict_del_def)
  have e2: "documents (session2\<lparr>images := dict_del (py ''a'') (images session2)\<rparr>) \<noteq> []"
    by (simp add: session2_def)
  have c1: "csvs session1 = [] \<and> documents session1 = []"
    by (simp add: session1_def)
  have hi: "chat_history state1 (py ''s'') = Some [msg0] \<and> chat_history state2 (py ''s'') = Some [msg0]"
    by (simp add: state1_def state2_def)
  from C1_single_delete_cascade [OF h1, of "py ''a''"] k1 e1 c1
  have r1: "chat_history (snd (delete_single_image state1 (py ''s'') (py ''a''))) (py ''s'') = None"
    by (simp add: Let_def)
  from C1_single_delete_cascade [OF h2, of "py ''a''"] k2 e2
  have r2: "chat_history (snd (delete_single_image state2 (py ''s'') (py ''a''))) = chat_history state2"
    by (simp add: Let_def)
  from h1 h2 k1 k2 hi r1 r2 show ?thesis by simp
qed

text \<open>
  C9. On an existing session each bulk delete endpoint (all images, all CSVs, all
  documents) answers with status \<open>deleted\<close> and \<open>history_cleared = True\<close>,
  whatever the state; when an artifact of another kind remains the history store is
  in fact unchanged.
\<close>

theorem C9_bulk_delete_reports_history_cleared:
  assumes "sessions st sid = Some s"
  shows
   "history_cleared (fst (delete_all_images u st sid)) = Some True
  \<and> history_cleared (fst (delete_all_csvs u st sid)) = Some True
  \<and> history_cleared (fst (delete_all_documents u st sid)) = Some True
  \<and> status (fst (delete_all_images u st sid)) = py ''deleted''
  \<and> status (fst (delete_all_csvs u st sid)) = py ''deleted''
  \<and> status (fst (delete_all_documents u st sid)) = py ''deleted''
  \<and> (csvs s \<noteq> [] \<or> documents s \<noteq> [] \<longrightarrow>
       chat_history (snd (delete_all_images u st sid)) = chat_history st)
  \<and> (images s \<noteq> [] \<or> documents s \<noteq> [] \<longrightarrow>
       chat_history (snd (delete_all_csvs u st sid)) = chat_history st)
  \<and> (images s \<noteq> [] \<or> csvs s \<noteq> [] \<longrightarrow>
       chat_history (snd (delete_all_documents u st sid)) = chat_history st)"
  using assms
  by (auto simp: delete_all_images_def delete_all_csvs_def delete_all_documents_def Let_def
      deleted_all_def)

theorem C9_bulk_delete_reports_history_cleared_witness:
  "sessions state2 (py ''s'') = Some session2 \<and> documents session2 \<noteq> []
   \<and> history_cleared (fst (delete_all_images (\<lambda>p. True) state2 (py ''s''))) = Some True
   \<and> chat_history (snd (delete_all_images (\<lambda>p. True) state2 (py ''s''))) (py ''s'') = Some [msg0]"
proof -
  have h2: "sessions state2 (py ''s'') = Some session2"
    by (simp add: state2_def)
  have d: "documents session2 \<noteq> []"
    by (simp add: session2_def)
  have hi: "chat_history state2 (py ''s'') = Some [msg0]"
    by (simp add: state2_def)
  from C9_bulk_delete_reports_history_cleared [OF h2, of "\<lambda>p. True"] d hi h2
  show ?thesis by simp
qed

text \<open>
  C10. The history-read endpoint returns the whole history for \<open>limit = 0\<close>, and for
  a positive limit the last \<open>limit\<close> messages in their order (all of them when fewer
  exist). A session without a history entry has the empty history.
\<close>

theorem C10_history_read_limit:
  "(let history = (case chat_history st sid of Some h \<Rightarrow> h | None \<Rightarrow> [])
    in messages (get_chat_history st sid 0) = history
     \<and> (0 < limit \<longrightarrow>
          messages (get_chat_history st sid limit) = drop (length history - nat limit) history
        \<and> length (messages (get_chat_history st sid limit)) = min (nat limit) (length history)))"
  by (auto simp: get_chat_history_def slice_from_def Let_def max_def nat_diff_distrib' split: option.splits)

theorem C10_history_read_limit_witness:
  "(0::int) < 1 \<and> messages (get_chat_history (state1\<lparr>chat_history := [py ''s'' \<mapsto> [msg0, msg0\<lparr>content := py ''x''\<rparr>]]\<rparr>) (py ''s'') 1) = [msg0\<lparr>content := py ''x''\<rparr>]
   \<and> messages (get_chat_history (state1\<lparr>chat_history := [py ''s'' \<mapsto> [msg0, msg0\<lparr>content := py ''x''\<rparr>]]\<rparr>) (py ''s'') 0) = [msg0, msg0\<lparr>content := py ''x''\<rparr>]"
  using C10_history_read_limit [of "state1\<lparr>chat_history := [py ''s'' \<mapsto> [msg0, msg0\<lparr>content := py ''x''\<rparr>]]\<rparr>" "py ''s''" 1]
  by (simp add: Let_def)

subsection \<open>The ordered file index\<close>

lemma str_nat_digit: "n < 10 \<Longrightarrow> str_nat n = [48 + n]"
  by (simp add: str_nat.simps)

lemma str_upper_kinds:
  "str_upper (py ''images'') = py ''IMAGES''"
  "str_upper (py ''csvs'') = py ''CSVS''"
  "str_upper (py ''documents'') = py ''DOCUMENTS''"
  by (simp_all add: str_upper_def py_def)

lemma sort_key_determined:
  assumes d: "distinct (map f xs)" and m: "mset ys = mset xs"
  shows "sort_key f ys = sort_key f xs"
proof (rule sort_key_inj_key_eq)
  show "mset ys = mset (sort_key f xs)" using m by simp
  have "set ys = set xs" using m by (rule mset_eq_setD)
  moreover have "inj_on f (set xs)" using d by (simp add: distinct_map)
  ultimately show "inj_on f (set ys)" by simp
  show "sorted (map f (sort_key f xs))" by simp
qed

lemma mset_file_entries:
  "mset d' = mset d \<Longrightarrow> mset (file_entries ft d') = mset (file_entries ft d)"
  by (simp add: file_entries_def)

lemma mset_collect_files:
  assumes "mset (sd_images sd') = mset (sd_images sd)"
    and "mset (sd_csvs sd') = mset (sd_csvs sd)"
    and "mset (sd_documents sd') = mset (sd_documents sd)"
  shows "mset (collect_files sd') = mset (collect_files sd)"
  by (simp only: collect_files_def mset_append mset_file_entries [OF assms(1)]
      mset_file_entries [OF assms(2)] mset_file_entries [OF assms(3)])

lemma f_type_file_entries: "f \<in> set (file_entries ft d) \<Longrightarrow> f_type f = ft"
  by (auto simp: file_entries_def)

lemma f_type_collect_files:
  assumes "f \<in> set (collect_files sd)"
  shows "f_type f = py ''images'' \<or> f_type f = py ''csvs'' \<or> f_type f = py ''documents''"
proof -
  from assms consider
      "f \<in> set (file_entries (py ''images'') (sd_images sd))"
    | "f \<in> set (file_entries (py ''csvs'') (sd_csvs sd))"
    | "f \<in> set (file_entries (py ''documents'') (sd_documents sd))"
    unfolding collect_files_def set_append by blast
  then show ?thesis
  proof cases
    case 1
    then have "f_type f = py ''images''" by (rule f_type_file_entries)
    then show ?thesis by simp
  next
    case 2
    then have "f_type f = py ''csvs''" by (rule f_type_file_entries)
    then show ?thesis by simp
  next
    case 3
    then have "f_type f = py ''documents''" by (rule f_type_file_entries)
    then show ?thesis by simp
  qed
qed

lemma map_enumerate_nth:
  "map (\<lambda>(i, f). g i f) (enumerate 0 fs) = map (\<lambda>i. g i (fs ! i)) [0..<length fs]"
  by (rule nth_equalityI) (simp_all add: nth_enumerate_eq)

lemma set_all_files: "set (all_files sd) = set (collect_files sd)"
  by (simp add: all_files_def)

text \<open>
  C2 (as the code has it). The file index of a chat turn covers every artifact of the three
  kinds exactly once, in ascending order of \<open>uploaded_at\<close>. The sort is stable and has
  no second key: artifacts with the same \<open>uploaded_at\<close> keep the order in which they
  were collected (images, then CSVs, then documents, each mapping in insertion order).
  When the \<open>uploaded_at\<close> values are pairwise distinct, the index does not depend on the
  insertion order of the mappings. Line \<open>i\<close> (counted from 0) is
  \<open>[i+1] KIND \<rightarrow> filename\<close> with KIND one of IMAGES, CSVS, DOCUMENTS.
\<close>

theorem C2_file_index_order:
  "mset (all_files sd) = mset (collect_files sd)
   \<and> sorted (map f_uploaded_at (all_files sd))
   \<and> (\<forall>t. filter (\<lambda>f. f_uploaded_at f = t) (all_files sd)
            = filter (\<lambda>f. f_uploaded_at f = t) (collect_files sd))
   \<and> (distinct (map f_uploaded_at (collect_files sd))
        \<and> mset (sd_images sd') = mset (sd_images sd)
        \<and> mset (sd_csvs sd') = mset (sd_csvs sd)
        \<and> mset (sd_documents sd') = mset (sd_documents sd)
      \<longrightarrow> all_files sd' = all_files sd
        \<and> ordered_context (all_files sd') = ordered_context (all_files sd))
   \<and> ordered_context (all_files sd) =
       str_join nl (map (\<lambda>i. py ''['' @ str_nat (i + 1) @ py ''] ''
                              @ str_upper (f_type (all_files sd ! i)) @ py '' '' @ [arrow] @ py '' ''
                              @ f_filename (all_files sd ! i))
                     [0..<length (all_files sd)])
   \<and> (\<forall>f \<in> set (all_files sd).
         str_upper (f_type f) \<in> {py ''IMAGES'', py ''CSVS'', py ''DOCUMENTS''})"
proof (intro conjI allI impI ballI)
  show "mset (all_files sd) = mset (collect_files sd)"
    by (simp add: all_files_def)
  show "sorted (map f_uploaded_at (all_files sd))"
    by (simp add: all_files_def)
  show "filter (\<lambda>f. f_uploaded_at f = t) (all_files sd)
      = filter (\<lambda>f. f_uploaded_at f = t) (collect_files sd)" for t
    unfolding all_files_def by (rule sort_key_stable)
  show "ordered_context (all_files sd) =
       str_join nl (map (\<lambda>i. py ''['' @ str_nat (i + 1) @ py ''] ''
                              @ str_upper (f_type (all_files sd ! i)) @ py '' '' @ [arrow] @ py '' ''
                              @ f_filename (all_files sd ! i))
                     [0..<length (all_files sd)])"
    unfolding ordered_context_def index_line_def by (simp only: map_enumerate_nth)
  show "str_upper (f_type f) \<in> {py ''IMAGES'', py ''CSVS'', py ''DOCUMENTS''}"
    if "f \<in> set (all_files sd)" for f
  proof -
    from that have "f \<in> set (collect_files sd)" by (simp only: set_all_files)
    then have "f_type f = py ''images'' \<or> f_type f = py ''csvs'' \<or> f_type f = py ''documents''"
      by (rule f_type_collect_files)
    then show ?thesis
    proof (elim disjE)
      assume "f_type f = py ''images''"
      then show ?thesis by (simp add: str_upper_kinds)
    next
      assume "f_type f = py ''csvs''"
      then show ?thesis by (simp add: str_upper_kinds)
    next
      assume "f_type f = py ''documents''"
      then show ?thesis by (simp add: str_upper_kinds)
    qed
  qed
next
  assume a: "distinct (map f_uploaded_at (collect_files sd))
        \<and> mset (sd_images sd') = mset (sd_images sd)
        \<and> mset (sd_csvs sd') = mset (sd_csvs sd)
        \<and> mset (sd_documents sd') = mset (sd_documents sd)"
  then have "mset (sd_images sd') = mset (sd_images sd)"
    and "mset (sd_csvs sd') = mset (sd_csvs sd)"
    and "mset (sd_documents sd') = mset (sd_documents sd)"
    by blast+
  then have m: "mset (collect_files sd') = mset (collect_files sd)"
    by (rule mset_collect_files)
  from a have d: "distinct (map f_uploaded_at (collect_files sd))" by blast
  show eq: "all_files sd' = all_files sd"
    unfolding all_files_def by (rule sort_key_determined [OF d m])
  show "ordered_context (all_files sd') = ordered_context (all_files sd)"
    by (simp only: eq)
qed

lemma order_data_files:
  "collect_files order_data =
     [\<lparr>f_type = py ''images'', f_file_id = py ''a'', f_filename = py ''late.png'', f_uploaded_at = 3, f_preview = None\<rparr>,
      \<lparr>f_type = py ''images'', f_file_id = py ''b'', f_filename = py ''early.png'', f_uploaded_at = 1, f_preview = None\<rparr>,
      \<lparr>f_type = py ''documents'', f_file_id = py ''d'', f_filename = py ''mid.txt'', f_uploaded_at = 2, f_preview = None\<rparr>]"
  by (simp add: collect_files_def file_entries_def order_data_def img_late_def img_early_def doc_mid_def)

lemma order_data_context:
  "ordered_context (all_files order_data) =
     py ''[1] IMAGES '' @ [arrow] @ py '' early.png'' @ nl
     @ py ''[2] DOCUMENTS '' @ [arrow] @ py '' mid.txt'' @ nl
     @ py ''[3] IMAGES '' @ [arrow] @ py '' late.png''"
  by (simp add: all_files_def order_data_files ordered_context_def index_line_def str_nat_digit
       str_upper_kinds enumerate_eq_zip upt_rec) (simp add: py_def)

theorem C2_file_index_order_witness:
  "distinct (map f_uploaded_at (collect_files order_data))
   \<and> mset (sd_images order_data') = mset (sd_images order_data)
   \<and> mset (sd_csvs order_data') = mset (sd_csvs order_data)
   \<and> mset (sd_documents order_data') = mset (sd_documents order_data)
   \<and> sd_images order_data' \<noteq> sd_images order_data
   \<and> ordered_context (all_files order_data') =
       py ''[1] IMAGES '' @ [arrow] @ py '' early.png'' @ nl
       @ py ''[2] DOCUMENTS '' @ [arrow] @ py '' mid.txt'' @ nl
       @ py ''[3] IMAGES '' @ [arrow] @ py '' late.png''"
proof -
  have d: "distinct (map f_uploaded_at (collect_files order_data))"
    by (simp add: order_data_files)
  have m: "mset (sd_images order_data') = mset (sd_images order_data)
         \<and> mset (sd_csvs order_data') = mset (sd_csvs order_data)
         \<and> mset (sd_documents order_data') = mset (sd_documents order_data)"
    by (simp add: order_data_def order_data'_def add.commute)
  have n: "sd_images order_data' \<noteq> sd_images order_data"
    by (simp add: order_data_def order_data'_def py_def)
  from C2_file_index_order [of order_data order_data'] d m
  have "ordered_context (all_files order_data') = ordered_context (all_files order_data)"
    by blast
  with d m n order_data_context show ?thesis by simp
qed

lemma tie_context:
  "ordered_context (all_files tie_data) =
    py ''[1] IMAGES '' @ [arrow] @ py '' x.png'' @ nl @ py ''[2] IMAGES '' @ [arrow] @ py '' y.png''"
  by (simp add: all_files_def collect_files_def file_entries_def tie_data_def img_x_def img_y_def
       ordered_context_def index_line_def str_nat_digit str_upper_kinds enumerate_eq_zip upt_rec) (simp add: py_def)

lemma tie_context':
  "ordered_context (all_files tie_data') =
    py ''[1] IMAGES '' @ [arrow] @ py '' y.png'' @ nl @ py ''[2] IMAGES '' @ [arrow] @ py '' x.png''"
  by (simp add: all_files_def collect_files_def file_entries_def tie_data'_def img_x_def img_y_def
       ordered_context_def index_line_def str_nat_digit str_upper_kinds enumerate_eq_zip upt_rec) (simp add: py_def)

text \<open>
  C2 as stated fails: two images uploaded at the same time are listed in insertion order
  (id \<open>b\<close> before id \<open>a\<close>), not by artifact id, and inserting the same two
  images in the other order changes the index.
\<close>

theorem C2_tie_counterexample:
  "map f_uploaded_at (all_files tie_data) = [1, 1]
   \<and> map f_file_id (all_files tie_data) = [py ''b'', py ''a'']
   \<and> (py ''a'', py ''b'') \<in> lexord {(x, y). x < y}
   \<and> mset (sd_images tie_data') = mset (sd_images tie_data)
   \<and> sd_csvs tie_data' = sd_csvs tie_data \<and> sd_documents tie_data' = sd_documents tie_data
   \<and> ordered_context (all_files tie_data') \<noteq> ordered_context (all_files tie_data)"
proof -
  have 1: "map f_uploaded_at (all_files tie_data) = [1, 1]
         \<and> map f_file_id (all_files tie_data) = [py ''b'', py ''a'']"
    by (simp add: all_files_def collect_files_def file_entries_def tie_data_def img_x_def img_y_def)
  have 2: "(py ''a'', py ''b'') \<in> lexord {(x, y). x < y}"
    by (simp add: py_def)
  have 3: "mset (sd_images tie_data') = mset (sd_images tie_data)
         \<and> sd_csvs tie_data' = sd_csvs tie_data \<and> sd_documents tie_data' = sd_documents tie_data"
    by (simp add: tie_data_def tie_data'_def add.commute)
  have 4: "ordered_context (all_files tie_data') \<noteq> ordered_context (all_files tie_data)"
    unfolding tie_context tie_context' by (simp add: py_def)
  from 1 2 3 4 show ?thesis by blast
qed

subsection \<open>Document truncation\<close>

lemma slice_to_nonneg: "0 \<le> i \<Longrightarrow> slice_to i xs = take (nat i) xs"
  by (auto simp: slice_to_def Let_def min_def)

lemma length_py [simp]: "length (py s) = length s"
  by (simp add: py_def)

lemma length_nl [simp]: "length nl = 1"
  by (simp add: nl_def)

lemma truncated_text_eq:
  "truncated_text txt =
     (if length txt \<le> 15000 then txt
      else take 15000 txt @ nl @ nl @ py ''[Document truncated...]'')"
  by (simp add: truncated_text_def max_chars_per_doc_def slice_to_nonneg)

lemma length_truncated_text:
  "length (truncated_text txt) = (if length txt \<le> 15000 then length txt else 15025)"
  by (simp add: truncated_text_eq)

lemma doc_loop_fits:
  "tot + int (length (truncated_text (doc_text d))) \<le> 50000 \<Longrightarrow>
   doc_loop ((fid, d) # rest) tot ctx =
     doc_loop rest (tot + int (length (truncated_text (doc_text d))))
       (ctx @ [doc_header (filename d) fid, truncated_text (doc_text d)])"
  by (simp add: Let_def max_total_chars_def)

lemma doc_loop_partial:
  "tot + int (length (truncated_text (doc_text d))) > 50000 \<Longrightarrow> 50000 - tot > 1000 \<Longrightarrow>
   doc_loop ((fid, d) # rest) tot ctx =
     ctx @ [doc_header (filename d) fid,
            take (nat (50000 - tot)) (truncated_text (doc_text d))
            @ nl @ nl @ py ''[Remaining documents truncated...]'']"
  by (simp add: Let_def max_total_chars_def slice_to_nonneg)

lemma doc_loop_stop:
  "tot + int (length (truncated_text (doc_text d))) > 50000 \<Longrightarrow> 50000 - tot \<le> 1000 \<Longrightarrow>
   doc_loop ((fid, d) # rest) tot ctx = ctx"
  by (simp add: Let_def max_total_chars_def)

lemma sized_doc_truncated:
  "truncated_text (doc_text (sized_doc n f)) =
     (if n \<le> 15000 then replicate n 97
      else replicate 15000 97 @ nl @ nl @ py ''[Document truncated...]'')"
  by (simp add: truncated_text_eq sized_doc_def)

lemma sized_doc_length:
  "int (length (truncated_text (doc_text (sized_doc n f)))) = (if n \<le> 15000 then int n else 15025)"
  by (simp add: length_truncated_text sized_doc_def)

lemma sized_doc_filename: "filename (sized_doc n f) = f"
  by (simp add: sized_doc_def)

lemma three_docs_context:
  "doc_context three_docs =
     [py ''Document Context:'',
      doc_header (py ''a.txt'') (py ''d1''), replicate 15000 97 @ nl @ nl @ py ''[Document truncated...]'',
      doc_header (py ''b.txt'') (py ''d2''), replicate 15000 97 @ nl @ nl @ py ''[Document truncated...]'',
      doc_header (py ''c.txt'') (py ''d3''), replicate 15000 97 @ nl @ nl @ py ''[Document truncated...]'']"
  unfolding doc_context_def three_docs_def
  by (simp add: doc_loop_fits sized_doc_length sized_doc_truncated sized_doc_filename del: doc_loop.simps(2))

lemma four_docs_context:
  "doc_context four_docs =
     [py ''Document Context:'',
      doc_header (py ''a.txt'') (py ''d1''), replicate 15000 97 @ nl @ nl @ py ''[Document truncated...]'',
      doc_header (py ''b.txt'') (py ''d2''), replicate 15000 97 @ nl @ nl @ py ''[Document truncated...]'',
      doc_header (py ''c.txt'') (py ''d3''), replicate 15000 97 @ nl @ nl @ py ''[Document truncated...]'',
      doc_header (py ''d.txt'') (py ''d4''), replicate 4925 97 @ nl @ nl @ py ''[Remaining documents truncated...]'']"
  unfolding doc_context_def four_docs_def three_docs_def
  by (simp add: doc_loop_fits doc_loop_partial sized_doc_length sized_doc_truncated sized_doc_filename del: doc_loop.simps(2))

lemma edge_docs_context:
  "doc_context edge_docs =
     [py ''Document Context:'',
      doc_header (py ''a.txt'') (py ''d1''), replicate 15000 97,
      doc_header (py ''b.txt'') (py ''d2''), replicate 15000 97,
      doc_header (py ''c.txt'') (py ''d3''), replicate 15000 97,
      doc_header (py ''d.txt'') (py ''d4''), replicate 4000 97]"
  unfolding doc_context_def edge_docs_def
  by (simp add: doc_loop_fits doc_loop_stop sized_doc_length sized_doc_truncated sized_doc_filename
      del: doc_loop.simps(2))

lemma not_suffix_marker:
  "\<not> suffix (py ''[Remaining documents truncated...]'') (xs @ py ''[Document truncated...]'')"
  by (simp add: suffix_to_prefix py_def)

text \<open>
  C3 (as the code has it). A document text longer than 15000 characters is cut to its first
  15000 characters followed by a marker, so it counts up to 15025 characters; a shorter
  text is taken whole. Documents are taken in the order of the mapping and the running
  total adds the length of each included text, marker included. A document whose text
  would bring the total above 50000 ends the loop: when the remaining budget is more than
  1000 characters, the first \<open>remaining\<close> characters of its text and the marker for the
  remaining documents are included; otherwise nothing is included and no marker is
  added. Three documents of 20000 characters fit (45075 characters) and get no such
  marker; the fourth of four such documents is cut to 4925 characters and gets it.
\<close>

theorem C3_document_truncation:
  "truncated_text txt =
     (if length txt \<le> 15000 then txt
      else take 15000 txt @ nl @ nl @ py ''[Document truncated...]'')
   \<and> (let t = truncated_text (doc_text d); hdr = doc_header (filename d) fid
       in (tot + int (length t) \<le> 50000 \<longrightarrow>
             doc_loop ((fid, d) # rest) tot ctx = doc_loop rest (tot + int (length t)) (ctx @ [hdr, t]))
        \<and> (tot + int (length t) > 50000 \<and> 50000 - tot > 1000 \<longrightarrow>
             doc_loop ((fid, d) # rest) tot ctx =
               ctx @ [hdr, take (nat (50000 - tot)) t @ nl @ nl
                           @ py ''[Remaining documents truncated...]''])
        \<and> (tot + int (length t) > 50000 \<and> 50000 - tot \<le> 1000 \<longrightarrow>
             doc_loop ((fid, d) # rest) tot ctx = ctx))
   \<and> doc_context three_docs =
       [py ''Document Context:'',
        doc_header (py ''a.txt'') (py ''d1''), replicate 15000 97 @ nl @ nl @ py ''[Document truncated...]'',
        doc_header (py ''b.txt'') (py ''d2''), replicate 15000 97 @ nl @ nl @ py ''[Document truncated...]'',
        doc_header (py ''c.txt'') (py ''d3''), replicate 15000 97 @ nl @ nl @ py ''[Document truncated...]'']
   \<and> doc_context four_docs =
       doc_context three_docs
       @ [doc_header (py ''d.txt'') (py ''d4''),
          replicate 4925 97 @ nl @ nl @ py ''[Remaining documents truncated...]'']"
proof -
  have 1: "truncated_text txt =
     (if length txt \<le> 15000 then txt
      else take 15000 txt @ nl @ nl @ py ''[Document truncated...]'')"
    by (rule truncated_text_eq)
  have 2: "tot + int (length (truncated_text (doc_text d))) \<le> 50000 \<longrightarrow>
      doc_loop ((fid, d) # rest) tot ctx =
        doc_loop rest (tot + int (length (truncated_text (doc_text d))))
          (ctx @ [doc_header (filename d) fid, truncated_text (doc_text d)])"
    using doc_loop_fits by blast
  have 3: "tot + int (length (truncated_text (doc_text d))) > 50000 \<and> 50000 - tot > 1000 \<longrightarrow>
      doc_loop ((fid, d) # rest) tot ctx =
        ctx @ [doc_header (filename d) fid,
               take (nat (50000 - tot)) (truncated_text (doc_text d)) @ nl @ nl
               @ py ''[Remaining documents truncated...]'']"
    using doc_loop_partial by blast
  have 4: "tot + int (length (truncated_text (doc_text d))) > 50000 \<and> 50000 - tot \<le> 1000 \<longrightarrow>
      doc_loop ((fid, d) # rest) tot ctx = ctx"
    using doc_loop_stop by blast
  have 5: "doc_context four_docs =
       doc_context three_docs
       @ [doc_header (py ''d.txt'') (py ''d4''),
          replicate 4925 97 @ nl @ nl @ py ''[Remaining documents truncated...]'']"
    by (simp only: four_docs_context three_docs_context append.simps)
  from 1 2 3 4 5 three_docs_context show ?thesis
    unfolding Let_def by blast
qed

theorem C3_document_truncation_witness:
  "(45075::int) + int (length (truncated_text (doc_text (sized_doc 20000 (py ''d.txt''))))) > 50000
   \<and> (50000::int) - 45075 > 1000
   \<and> doc_loop [(py ''d4'', sized_doc 20000 (py ''d.txt''))] 45075 [] =
       [doc_header (py ''d.txt'') (py ''d4''),
        replicate 4925 97 @ nl @ nl @ py ''[Remaining documents truncated...]'']"
proof -
  have h: "(45075::int) + int (length (truncated_text (doc_text (sized_doc 20000 (py ''d.txt''))))) > 50000"
    by (simp add: sized_doc_length)
  from C3_document_truncation [of "[]" "sized_doc 20000 (py ''d.txt'')" "py ''d4''" 45075 "[]" "[]"] h
  have "doc_loop [(py ''d4'', sized_doc 20000 (py ''d.txt''))] 45075 [] =
       [doc_header (filename (sized_doc 20000 (py ''d.txt''))) (py ''d4''),
        take (nat (50000 - 45075)) (truncated_text (doc_text (sized_doc 20000 (py ''d.txt''))))
        @ nl @ nl @ py ''[Remaining documents truncated...]'']"
    unfolding Let_def by simp
  then show ?thesis using h
    by (simp add: sized_doc_filename sized_doc_truncated)
qed

text \<open>
  C3 as stated fails: three documents of 20000 characters are all included in cut form and
  the document block does not end with the marker for remaining documents. With exactly
  1000 characters of budget left, nothing of the next document is included and no marker
  is added.
\<close>

theorem C3_truncation_counterexample:
  "doc_context three_docs =
       [py ''Document Context:'',
        doc_header (py ''a.txt'') (py ''d1''), replicate 15000 97 @ nl @ nl @ py ''[Document truncated...]'',
        doc_header (py ''b.txt'') (py ''d2''), replicate 15000 97 @ nl @ nl @ py ''[Document truncated...]'',
        doc_header (py ''c.txt'') (py ''d3''), replicate 15000 97 @ nl @ nl @ py ''[Document truncated...]'']
   \<and> \<not> suffix (py ''[Remaining documents truncated...]'') (str_join nl (doc_context three_docs))
   \<and> doc_context edge_docs =
       [py ''Document Context:'',
        doc_header (py ''a.txt'') (py ''d1''), replicate 15000 97,
        doc_header (py ''b.txt'') (py ''d2''), replicate 15000 97,
        doc_header (py ''c.txt'') (py ''d3''), replicate 15000 97,
        doc_header (py ''d.txt'') (py ''d4''), replicate 4000 97]"
proof -
  have "str_join nl (doc_context three_docs) =
      (str_join nl
         [py ''Document Context:'',
          doc_header (py ''a.txt'') (py ''d1''), replicate 15000 97 @ nl @ nl @ py ''[Document truncated...]'',
          doc_header (py ''b.txt'') (py ''d2''), replicate 15000 97 @ nl @ nl @ py ''[Document truncated...]'',
          doc_header (py ''c.txt'') (py ''d3'')] @ nl @ replicate 15000 97 @ nl @ nl)
      @ py ''[Document truncated...]''"
    unfolding three_docs_context by simp
  then have "\<not> suffix (py ''[Remaining documents truncated...]'') (str_join nl (doc_context three_docs))"
    by (simp only: not_suffix_marker not_False_eq_True)
  with three_docs_context edge_docs_context show ?thesis by blast
qed

subsection \<open>Session creation and image loading in a chat turn\<close>

lemma chat_unknown_sessions:
  "sessions st (session_id payload) = None \<Longrightarrow>
   sessions (snd (chat gc io t1 t2 t3 st payload)) = sessions st"
  by (simp add: chat_def Let_def split: sum.split)

lemma chat_history_created:
  "chat_history (snd (chat gc io t1 t2 t3 st payload)) (session_id payload) \<noteq> None"
  by (simp add: chat_def Let_def split: sum.split option.split)

lemma chat_known_activity:
  "sessions st (session_id payload) = Some s \<Longrightarrow>
   \<not> isl (fst (chat gc io t1 t2 t3 st payload)) \<Longrightarrow>
   sessions (snd (chat gc io t1 t2 t3 st payload)) =
     (sessions st)(session_id payload \<mapsto> s\<lparr>last_activity := t3\<rparr>)"
  by (simp add: chat_def Let_def split: sum.splits)

lemma chat_failed_sessions:
  "isl (fst (chat gc io t1 t2 t3 st payload)) \<Longrightarrow>
   sessions (snd (chat gc io t1 t2 t3 st payload)) = sessions st"
  by (simp add: chat_def Let_def split: sum.splits)

lemma upload_image_creates:
  "sessions st (request_session_id sid fresh) = None \<Longrightarrow>
   sessions (snd (upload_image st sid fresh fid fname fp (Inr r) tc ta0 tu ta)) (request_session_id sid fresh) =
     Some \<lparr>images = [(fid, \<lparr>filename = fname, uploaded_at = tu,
                            path = fp,
                            resized_path = (if r \<noteq> fp then Some r else None)\<rparr>)],
           csvs = [], documents = [], created_at = tc, last_activity = ta\<rparr>"
  by (simp add: upload_image_def Let_def new_session_def)

lemma upload_csv_creates:
  "sessions st (request_session_id sid fresh) = None \<Longrightarrow>
   sessions (snd (upload_csv st sid fresh fid fname fp (Inr r) tc ta0 tu ta)) (request_session_id sid fresh) =
     Some \<lparr>images = [],
           csvs = [(fid, \<lparr>filename = fname, uploaded_at = tu,
                          csv_path = Some fp,
                          df = r\<rparr>)],
           documents = [], created_at = tc, last_activity = ta\<rparr>"
  by (simp add: upload_csv_def Let_def new_session_def)

lemma upload_document_creates:
  "sessions st (request_session_id sid fresh) = None \<Longrightarrow>
   sessions (snd (upload_document st sid fresh fid fname fp (Inr r) tc ta0 tu ta)) (request_session_id sid fresh) =
     Some \<lparr>images = [], csvs = [],
           documents = [(fid, \<lparr>filename = fname, uploaded_at = tu,
                               doc_path = fp,
                               doc_text = r\<rparr>)],
           created_at = tc, last_activity = ta\<rparr>"
  by (simp add: upload_document_def Let_def new_session_def)

text \<open>
  C5 (as the code has it). A chat request whose session id is absent from the session store
  leaves the session store as it was, whether the completion succeeds or fails: the
  session is not created and no \<open>last_activity\<close> is written; only the history entry of
  that id is created. A successful chat request on an existing session sets its
  \<open>last_activity\<close>. A session is created by the first successful image, CSV or document
  upload that names an unknown id, with the three mappings, of which only the uploaded
  kind has an entry, and both timestamps.
\<close>

theorem C5_session_creation:
  "(sessions st (session_id payload) = None \<longrightarrow>
      sessions (snd (chat gc io t1 t2 t3 st payload)) = sessions st
    \<and> chat_history (snd (chat gc io t1 t2 t3 st payload)) (session_id payload) \<noteq> None)
   \<and> (sessions st (session_id payload) = Some s \<and> \<not> isl (fst (chat gc io t1 t2 t3 st payload)) \<longrightarrow>
      sessions (snd (chat gc io t1 t2 t3 st payload)) =
        (sessions st)(session_id payload \<mapsto> s\<lparr>last_activity := t3\<rparr>))
   \<and> (sessions st (request_session_id sid fresh) = None \<longrightarrow>
      sessions (snd (upload_image st sid fresh fid fname fp (Inr r) tc ta0 tu ta)) (request_session_id sid fresh) =
        Some \<lparr>images = [(fid, \<lparr>filename = fname, uploaded_at = tu,
                   path = fp,
                   resized_path = (if r \<noteq> fp then Some r else None)\<rparr>)],
              csvs = [], documents = [], created_at = tc, last_activity = ta\<rparr>
    \<and> sessions (snd (upload_csv st sid fresh fid fname fp (Inr parsed) tc ta0 tu ta)) (request_session_id sid fresh) =
        Some \<lparr>images = [],
              csvs = [(fid, \<lparr>filename = fname, uploaded_at = tu,
                   csv_path = Some fp,
                   df = parsed\<rparr>)],
              documents = [], created_at = tc, last_activity = ta\<rparr>
    \<and> sessions (snd (upload_document st sid fresh fid fname fp (Inr r) tc ta0 tu ta)) (request_session_id sid fresh) =
        Some \<lparr>images = [], csvs = [],
              documents = [(fid, \<lparr>filename = fname, uploaded_at = tu,
                   doc_path = fp,
                   doc_text = r\<rparr>)],
              created_at = tc, last_activity = ta\<rparr>)"
  using chat_unknown_sessions [of st payload gc io t1 t2 t3]
    chat_history_created [of gc io t1 t2 t3 st payload]
    chat_known_activity [of st payload s gc io t1 t2 t3]
    upload_image_creates [of st sid fresh fid fname fp r tc ta0 tu ta]
    upload_csv_creates [of st sid fresh fid fname fp parsed tc ta0 tu ta]
    upload_document_creates [of st sid fresh fid fname fp r tc ta0 tu ta]
  by blast

theorem C5_session_creation_witness:
  "sessions empty_state (session_id hello) = None
   \<and> sessions (snd (chat reply_ok no_image 1 2 3 empty_state hello)) = Map.empty
   \<and> chat_history (snd (chat reply_ok no_image 1 2 3 empty_state hello)) (py ''s'') \<noteq> None
   \<and> sessions state1 (session_id hello) = Some session1
   \<and> \<not> isl (fst (chat reply_ok no_image 1 2 3 state1 hello))
   \<and> sessions (snd (chat reply_ok no_image 1 2 3 state1 hello)) (py ''s'') =
       Some (session1\<lparr>last_activity := 3\<rparr>)
   \<and> sessions empty_state (request_session_id (Some (py ''s'')) (py ''u'')) = None
   \<and> sessions (snd (upload_document empty_state (Some (py ''s'')) (py ''u'') (py ''d'') (py ''n.txt'')
                      (py ''uploads/documents/s_d_n.txt'') (Inr (py ''text'')) 1 2 3 4)) (py ''s'') =
       Some \<lparr>images = [], csvs = [],
             documents = [(py ''d'', \<lparr>filename = py ''n.txt'', uploaded_at = 3,
                  doc_path = py ''uploads/documents/s_d_n.txt'',
                  doc_text = py ''text''\<rparr>)],
             created_at = 1, last_activity = 4\<rparr>"
proof -
  have h: "sessions empty_state (session_id hello) = None"
    by (simp add: empty_state_def)
  have i: "session_id hello = py ''s''"
    by (simp add: hello_def)
  have r: "request_session_id (Some (py ''s'')) (py ''u'') = py ''s''"
    by (simp add: request_session_id_def py_def)
  have u: "sessions empty_state (request_session_id (Some (py ''s'')) (py ''u'')) = None"
    by (simp add: empty_state_def)
  have e: "sessions empty_state = Map.empty"
    by (simp add: empty_state_def)
  have k: "sessions state1 (session_id hello) = Some session1"
    by (simp add: state1_def hello_def)
  have ok: "\<not> isl (fst (chat reply_ok no_image 1 2 3 state1 hello))"
    by (simp add: chat_def gemini_chat_def reply_ok_def Let_def)
  from C5_session_creation [of empty_state hello reply_ok no_image 1 2 3 undefined
      "Some (py ''s'')" "py ''u''" "py ''d''" "py ''n.txt''" "py ''uploads/documents/s_d_n.txt''"
      "py ''text''" 1 2 3 4 undefined] h u
  have 1: "sessions (snd (chat reply_ok no_image 1 2 3 empty_state hello)) = Map.empty
   \<and> chat_history (snd (chat reply_ok no_image 1 2 3 empty_state hello)) (py ''s'') \<noteq> None
   \<and> sessions (snd (upload_document empty_state (Some (py ''s'')) (py ''u'') (py ''d'') (py ''n.txt'')
                      (py ''uploads/documents/s_d_n.txt'') (Inr (py ''text'')) 1 2 3 4)) (py ''s'') =
       Some \<lparr>images = [], csvs = [],
             documents = [(py ''d'', \<lparr>filename = py ''n.txt'', uploaded_at = 3,
                  doc_path = py ''uploads/documents/s_d_n.txt'',
                  doc_text = py ''text''\<rparr>)],
             created_at = 1, last_activity = 4\<rparr>"
    unfolding i r e by simp
  from C5_session_creation [of state1 hello reply_ok no_image 1 2 3 session1] k ok
  have 2: "sessions (snd (chat reply_ok no_image 1 2 3 state1 hello)) =
        (sessions state1)(session_id hello \<mapsto> session1\<lparr>last_activity := 3\<rparr>)"
    by blast
  have 3: "sessions (snd (chat reply_ok no_image 1 2 3 state1 hello)) (py ''s'') =
       Some (session1\<lparr>last_activity := 3\<rparr>)"
    unfolding 2 i by simp
  from h k ok u 1 3 show ?thesis by blast
qed

text \<open>
  C5 as stated fails: after a successful chat request on an empty store the session named
  in the request is still absent from the session store.
\<close>

theorem C5_chat_counterexample:
  "sessions empty_state (py ''s'') = None
   \<and> \<not> isl (fst (chat reply_ok no_image 1 2 3 empty_state hello))
   \<and> sessions (snd (chat reply_ok no_image 1 2 3 empty_state hello)) (py ''s'') = None"
  by (simp add: chat_def gemini_chat_def reply_ok_def empty_state_def hello_def Let_def)

lemma image_loop_append:
  "image_loop io (xs @ ys) = image_loop io xs @ image_loop io ys"
  by (induction io xs rule: image_loop.induct) simp_all

lemma image_loop_failed:
  "io (image_path info) = None \<Longrightarrow>
   image_loop io ((fid, info) # post) =
     Text (py ''[Failed to load image: '' @ filename info @ py '']'') # image_loop io post"
  by simp

text \<open>
  C8 (as the code has it). When opening an image fails during context assembly, the
  text part \<open>[Failed to load image: <filename>]\<close> takes the place of that image and the
  assembly goes on: the parts of the images before and after it, the note on several
  images and the user question (last) are all there, and the completion is called on
  the assembled parts.
\<close>

theorem C8_image_load_failure:
  assumes "image_open (image_path info) = None"
    and "sd_images sd = pre @ (fid, info) # post"
  shows "context_parts image_open msg history sd octx =
       history_parts history @ ordered_parts octx @ csv_parts (sd_csvs sd)
       @ document_parts (sd_documents sd)
       @ image_loop image_open pre
       @ [Text (py ''[Failed to load image: '' @ filename info @ py '']'')]
       @ image_loop image_open post
       @ (if length (sd_images sd) > 1 then
            [Text (nl @ py ''Note: '' @ str_nat (length (sd_images sd)) @ py '' images have been uploaded. ''
                   @ py ''Please refer to them by filename when answering.'')]
          else [])
       @ [Text (nl @ py ''User question: '' @ msg)]
     \<and> gemini_chat generate_content image_open msg history sd octx =
         generate_content (context_parts image_open msg history sd octx)"
proof -
  have ne: "sd_images sd \<noteq> []" using assms(2) by simp
  have "image_loop image_open (sd_images sd) =
      image_loop image_open pre
      @ [Text (py ''[Failed to load image: '' @ filename info @ py '']'')]
      @ image_loop image_open post"
    using assms(1) unfolding assms(2) image_loop_append by simp
  then have "image_parts image_open (sd_images sd) =
      image_loop image_open pre
      @ [Text (py ''[Failed to load image: '' @ filename info @ py '']'')]
      @ image_loop image_open post
      @ (if length (sd_images sd) > 1 then
            [Text (nl @ py ''Note: '' @ str_nat (length (sd_images sd)) @ py '' images have been uploaded. ''
                   @ py ''Please refer to them by filename when answering.'')]
          else [])"
    using ne by (simp add: image_parts_def)
  then show ?thesis
    by (simp add: context_parts_def gemini_chat_def)
qed

theorem C8_image_load_failure_witness:
  "only_x (image_path img0) = None
   \<and> sd_images two_images = [] @ (py ''a'', img0) # [(py ''b'', img_x)]
   \<and> context_parts only_x (py ''what?'') [] two_images [] =
       [Text (py ''[Failed to load image: cat.png]''),
        Image (),
        Text (py ''[Image: x.png (file_id: b)]''),
        Text (nl @ py ''Note: 2 images have been uploaded. Please refer to them by filename when answering.''),
        Text (nl @ py ''User question: what?'')]"
proof -
  have f: "only_x (image_path img0) = None"
    by (simp add: only_x_def image_path_def img0_def img_x_def py_def)
  have l: "sd_images two_images = [] @ (py ''a'', img0) # [(py ''b'', img_x)]"
    by (simp add: two_images_def)
  have x: "only_x (image_path img_x) = Some ()"
    by (simp add: only_x_def image_path_def img_x_def)
  have n: "str_nat (Suc (Suc 0)) = py ''2''"
    by (simp add: str_nat_digit py_def)
  from f l C8_image_load_failure [where image_open = only_x and info = img0 and sd = two_images
      and pre = "[]" and fid = "py ''a''" and post = "[(py ''b'', img_x)]" and msg = "py ''what?''"
      and history = "[]" and octx = "[]"]
  have "context_parts only_x (py ''what?'') [] two_images [] =
       history_parts [] @ ordered_parts [] @ csv_parts (sd_csvs two_images)
       @ document_parts (sd_documents two_images)
       @ image_loop only_x []
       @ [Text (py ''[Failed to load image: '' @ filename img0 @ py '']'')]
       @ image_loop only_x [(py ''b'', img_x)]
       @ (if length (sd_images two_images) > 1 then
            [Text (nl @ py ''Note: '' @ str_nat (length (sd_images two_images)) @ py '' images have been uploaded. ''
                   @ py ''Please refer to them by filename when answering.'')]
          else [])
       @ [Text (nl @ py ''User question: '' @ py ''what?'')]"
    by blast
  also have "\<dots> =
       [Text (py ''[Failed to load image: cat.png]''),
        Image (),
        Text (py ''[Image: x.png (file_id: b)]''),
        Text (nl @ py ''Note: 2 images have been uploaded. Please refer to them by filename when answering.''),
        Text (nl @ py ''User question: what?'')]"
    by (simp add: history_parts_def ordered_parts_def csv_parts_def document_parts_def two_images_def x n)
       (simp add: img0_def img_x_def py_def)
  finally show ?thesis using f l by blast
qed

text \<open>
  C8 as stated fails in the letter case of the placeholder only: the text part starts with
  a capital F.
\<close>

theorem C8_placeholder_counterexample:
  "image_loop no_image [(py ''a'', img0)] = [Text (py ''[Failed to load image: cat.png]'')]
   \<and> image_loop no_image [(py ''a'', img0)] \<noteq> [Text (py ''[failed to load image: cat.png]'')]"
  by (simp add: no_image_def img0_def py_def)

subsection \<open>Text chunking\<close>

lemma split_acc_not_Nil: "split_acc sep acc t \<noteq> []"
  by (induction sep acc t rule: split_acc.induct) auto

lemma split_acc_join:
  "sep \<noteq> [] \<Longrightarrow> str_join sep (split_acc sep acc t) = acc @ t"
proof (induction sep acc t rule: split_acc.induct)
  case (1 sep acc)
  then show ?case by simp
next
  case (2 sep acc c cs)
  show ?case
  proof (cases "prefix sep (c # cs)")
    case True
    then have eq: "c # cs = sep @ drop (length sep) (c # cs)"
      by (metis append_eq_conv_conj prefixE)
    obtain y ys where r: "split_acc sep [] (drop (length sep) (c # cs)) = y # ys"
      using split_acc_not_Nil by (cases "split_acc sep [] (drop (length sep) (c # cs))") auto
    from 2 True have "str_join sep (split_acc sep [] (drop (length sep) (c # cs))) = drop (length sep) (c # cs)"
      by simp
    with r have "str_join sep (acc # split_acc sep [] (drop (length sep) (c # cs)))
        = acc @ sep @ drop (length sep) (c # cs)"
      by simp
    with True 2 eq show ?thesis by simp
  next
    case False
    with 2 show ?thesis by simp
  qed
qed

lemma str_split_join:
  "str_split sep t = Inr splits \<Longrightarrow> str_join sep splits = t"
  by (auto simp: str_split_def split_acc_join split: if_splits)

lemma str_join_snoc:
  "str_join sep (ps @ [s]) = (if ps = [] then s else str_join sep ps @ sep @ s)"
  by (induction sep ps rule: str_join.induct) simp_all

lemma split_loop_step:
  assumes ov: "chunk_overlap self \<le> 0"
    and r: "split_loop recurse self sep (s # splits) chunks cur = Inr res"
  shows "\<exists>chunksN curN.
      split_loop recurse self sep splits chunksN curN = Inr res
    \<and> ((cur \<noteq> [] \<and> chunksN = chunks @ [strip cur] \<and> curN = s)
       \<or> (cur = [] \<and> (\<exists>sub. recurse s = Inr sub \<and> chunksN = chunks @ sub) \<and> curN = [])
       \<or> (cur = [] \<and> chunksN = chunks \<and> curN = s)
       \<or> (cur \<noteq> [] \<and> chunksN = chunks \<and> curN = cur @ sep @ s))"
proof (cases "int (length cur) + int (length s) + int (length sep) > chunk_size self")
  case ex: True
  show ?thesis
  proof (cases "cur = []")
    case False
    with ex ov r have "split_loop recurse self sep splits (chunks @ [strip cur]) s = Inr res"
      by simp
    with False show ?thesis by blast
  next
    case True
    show ?thesis
    proof (cases "int (length s) > chunk_size self")
      case big: True
      with ex True r obtain sub where sub: "recurse s = Inr sub"
        by (cases "recurse s") simp_all
      with big ex True r have "split_loop recurse self sep splits (chunks @ sub) [] = Inr res"
        by simp
      with True sub show ?thesis by blast
    next
      case False
      with ex True r have "split_loop recurse self sep splits chunks s = Inr res"
        by simp
      with True show ?thesis by blast
    qed
  qed
next
  case nex: False
  show ?thesis
  proof (cases "cur = []")
    case True
    with nex r have "split_loop recurse self sep splits chunks s = Inr res"
      by simp
    with True show ?thesis by blast
  next
    case False
    with nex r have "split_loop recurse self sep splits chunks (cur @ sep @ s) = Inr res"
      by simp
    with False show ?thesis by blast
  qed
qed

lemma weave_gap_left: "weave D cs w \<Longrightarrow> list_all D g \<Longrightarrow> weave D cs (g @ w)"
proof (induction rule: weave.induct)
  case (gap g')
  then show ?case by (simp add: weave.gap)
next
  case (chunk g' cs w c)
  from chunk.prems chunk.hyps(1) have "list_all D (g @ g')" by simp
  from weave.chunk [OF this chunk.hyps(2), of c] show ?case by simp
qed

lemma weave_gap_right: "weave D cs w \<Longrightarrow> list_all D g \<Longrightarrow> weave D cs (w @ g)"
proof (induction rule: weave.induct)
  case (gap g')
  then show ?case by (simp add: weave.gap)
next
  case (chunk g' cs w c)
  from weave.chunk [OF chunk.hyps(1) chunk.IH [OF chunk.prems], of c] show ?case by simp
qed

lemma weave_append: "weave D cs w \<Longrightarrow> weave D cs' w' \<Longrightarrow> weave D (cs @ cs') (w @ w')"
proof (induction rule: weave.induct)
  case (gap g)
  then show ?case by (simp add: weave_gap_left)
next
  case (chunk g cs w c)
  from weave.chunk [OF chunk.hyps(1) chunk.IH [OF chunk.prems], of c] show ?case by simp
qed

lemma weave_single: "weave D [c] c"
  using weave.chunk [of D "[]" "[]" "[]" c] by (simp add: weave.gap)

lemma rev_dropWhile_takeWhile:
  "xs = rev (dropWhile P (rev xs)) @ rev (takeWhile P (rev xs))"
proof -
  have "rev (rev xs) = rev (takeWhile P (rev xs) @ dropWhile P (rev xs))"
    by (simp only: takeWhile_dropWhile_id)
  then show ?thesis
    by (simp only: rev_rev_ident rev_append)
qed

lemma strip_decompose:
  "s = takeWhile is_space s @ strip s @ rev (takeWhile is_space (rev (dropWhile is_space s)))"
proof -
  have "dropWhile is_space s = strip s @ rev (takeWhile is_space (rev (dropWhile is_space s)))"
    unfolding strip_def by (rule rev_dropWhile_takeWhile)
  moreover have "s = takeWhile is_space s @ dropWhile is_space s" by simp
  ultimately show ?thesis by simp
qed

lemma list_all_takeWhile_space:
  "(\<And>c. is_space c \<Longrightarrow> D c) \<Longrightarrow> list_all D (takeWhile is_space xs)"
  by (induction xs) auto

lemma weave_strip:
  assumes "\<And>c. is_space c \<Longrightarrow> D c"
  shows "weave D [strip s] s"
proof -
  have 1: "list_all D (takeWhile is_space s)"
    using assms by (rule list_all_takeWhile_space)
  have "list_all D (takeWhile is_space (rev (dropWhile is_space s)))"
    using assms by (rule list_all_takeWhile_space)
  then have 2: "list_all D (rev (takeWhile is_space (rev (dropWhile is_space s))))"
    by simp
  from weave.chunk [OF 1 weave.gap [OF 2], of "strip s"] strip_decompose [of s]
  show ?thesis by simp
qed

lemma weave_subseq: "weave D cs w \<Longrightarrow> subseq (concat cs) w"
proof (induction rule: weave.induct)
  case (gap g)
  then show ?case by simp
next
  case (chunk g cs w c)
  then have "subseq (c @ concat cs) (c @ w)" by (simp add: subseq_append')
  then show ?case by (simp add: subseq_drop_many)
qed

lemma filter_excluded: "list_all D g \<Longrightarrow> (\<And>c. D c \<Longrightarrow> \<not> keep c) \<Longrightarrow> filter keep g = []"
  by (induction g) auto

lemma weave_filter:
  "weave D cs w \<Longrightarrow> (\<And>c. D c \<Longrightarrow> \<not> keep c) \<Longrightarrow> filter keep (concat cs) = filter keep w"
proof (induction rule: weave.induct)
  case (gap g)
  then show ?case by (simp add: filter_excluded [of D g keep])
next
  case (chunk g cs w c)
  then show ?case by (simp add: filter_excluded [of D g keep])
qed

lemma split_loop_weave:
  assumes ov: "chunk_overlap self \<le> 0"
    and sp: "\<And>c. is_space c \<Longrightarrow> D c"
    and ds: "list_all D sep"
  shows "split_loop recurse self sep splits chunks cur = Inr (chunks', cur') \<Longrightarrow>
     (\<And>s sub. s \<in> set splits \<Longrightarrow> recurse s = Inr sub \<Longrightarrow> weave D sub s) \<Longrightarrow>
     str_join sep ps = w @ cur \<Longrightarrow> weave D chunks w \<Longrightarrow>
     \<exists>w'. str_join sep (ps @ splits) = w' @ cur' \<and> weave D chunks' w'"
proof (induction splits arbitrary: chunks cur ps w)
  case Nil
  then show ?case by simp
next
  case (Cons s splits)
  from split_loop_step [OF ov Cons.prems(1)]
  obtain chunksN curN where
      rn: "split_loop recurse self sep splits chunksN curN = Inr (chunks', cur')"
    and st: "(cur \<noteq> [] \<and> chunksN = chunks @ [strip cur] \<and> curN = s)
       \<or> (cur = [] \<and> (\<exists>sub. recurse s = Inr sub \<and> chunksN = chunks @ sub) \<and> curN = [])
       \<or> (cur = [] \<and> chunksN = chunks \<and> curN = s)
       \<or> (cur \<noteq> [] \<and> chunksN = chunks \<and> curN = cur @ sep @ s)"
    by blast
  have j: "str_join sep (ps @ [s]) = (if ps = [] then s else w @ cur @ sep @ s)"
    using Cons.prems(3) by (simp add: str_join_snoc)
  have e: "ps = [] \<Longrightarrow> w = [] \<and> cur = []"
    using Cons.prems(3) by simp
  have wsep: "weave D chunks (w @ sep)"
    using Cons.prems(4) ds by (rule weave_gap_right)
  have inv: "\<exists>wN. str_join sep (ps @ [s]) = wN @ curN \<and> weave D chunksN wN"
    using st
  proof (elim disjE conjE exE)
    assume a: "cur \<noteq> []" "chunksN = chunks @ [strip cur]" "curN = s"
    from a(1) e have ne: "ps \<noteq> []" by blast
    have "weave D [strip cur] (cur @ sep)"
      using weave_strip [of D cur, OF sp] ds by (rule weave_gap_right)
    with Cons.prems(4) have "weave D (chunks @ [strip cur]) (w @ cur @ sep)"
      by (rule weave_append)
    with a ne j show ?thesis by simp
  next
    fix sub
    assume a: "cur = []" "recurse s = Inr sub" "chunksN = chunks @ sub" "curN = []"
    from Cons.prems(2) [of s sub] a have ws: "weave D sub s" by simp
    show ?thesis
    proof (cases "ps = []")
      case True
      with e Cons.prems(4) ws have "weave D (chunks @ sub) ([] @ s)"
        by (intro weave_append) simp_all
      with True a j show ?thesis by simp
    next
      case False
      from wsep ws have "weave D (chunks @ sub) ((w @ sep) @ s)"
        by (rule weave_append)
      with False a j show ?thesis by simp
    qed
  next
    assume a: "cur = []" "chunksN = chunks" "curN = s"
    show ?thesis
    proof (cases "ps = []")
      case True
      with e Cons.prems(4) a j show ?thesis by simp
    next
      case False
      with a j wsep show ?thesis by simp
    qed
  next
    assume a: "cur \<noteq> []" "chunksN = chunks" "curN = cur @ sep @ s"
    from a(1) e have ne: "ps \<noteq> []" by blast
    with a j Cons.prems(4) show ?thesis by simp
  qed
  then obtain wN where wn: "str_join sep (ps @ [s]) = wN @ curN" "weave D chunksN wN"
    by blast
  have rec: "\<And>s' sub. s' \<in> set splits \<Longrightarrow> recurse s' = Inr sub \<Longrightarrow> weave D sub s'"
    using Cons.prems(2) by simp
  from Cons.IH [OF rn rec wn] show ?case by simp
qed

lemma split_loop_total:
  "(\<And>s. s \<in> set splits \<Longrightarrow> \<exists>sub. recurse s = Inr sub) \<Longrightarrow>
   \<exists>res. split_loop recurse self sep splits chunks cur = Inr res"
proof (induction splits arbitrary: chunks cur)
  case Nil
  then show ?case by simp
next
  case (Cons s splits)
  from Cons.prems [of s] obtain sub where sub: "recurse s = Inr sub" by auto
  have ih: "\<And>chunks cur. \<exists>res. split_loop recurse self sep splits chunks cur = Inr res"
    using Cons.IH Cons.prems by simp
  show ?case
    using sub ih by simp
qed

lemma split_recursive_weave:
  assumes ov: "chunk_overlap self \<le> 0"
    and sp: "\<And>c. is_space c \<Longrightarrow> D c"
  shows "(\<And>sep. sep \<in> set seps \<Longrightarrow> sep \<noteq> [] \<and> list_all D sep) \<Longrightarrow>
     \<exists>chunks. split_recursive self t seps = Inr chunks \<and> weave D chunks t"
proof (induction seps arbitrary: t)
  case Nil
  show ?case
    using weave_single [of D t] weave.gap [of D "[]"] by simp
next
  case (Cons sep rest)
  show ?case
  proof (cases "int (length t) \<le> chunk_size self")
    case True
    then show ?thesis
      using weave_single [of D t] weave.gap [of D "[]"] by simp
  next
    case False
    from Cons.prems [of sep] have sep: "sep \<noteq> []" "list_all D sep" by simp_all
    define splits where "splits = split_acc sep [] t"
    have ss: "str_split sep t = Inr splits"
      using sep(1) by (simp add: str_split_def splits_def)
    have jn: "str_join sep splits = t"
      using ss by (rule str_split_join)
    have ih: "\<And>s. \<exists>sub. split_recursive self s rest = Inr sub \<and> weave D sub s"
      using Cons.IH Cons.prems by simp
    have "\<exists>res. split_loop (\<lambda>s. split_recursive self s rest) self sep splits [] [] = Inr res"
      using ih by (intro split_loop_total) blast
    then obtain chunks' cur' where
      lp: "split_loop (\<lambda>s. split_recursive self s rest) self sep splits [] [] = Inr (chunks', cur')"
      by (metis surj_pair)
    have rec: "\<And>s sub. s \<in> set splits \<Longrightarrow> split_recursive self s rest = Inr sub \<Longrightarrow> weave D sub s"
      using ih by (metis Inr_inject)
    have "\<exists>w'. str_join sep ([] @ splits) = w' @ cur' \<and> weave D chunks' w'"
    proof (rule split_loop_weave [where self = self and D = D and sep = sep and splits = splits
          and recurse = "\<lambda>s. split_recursive self s rest" and chunks = "[]" and cur = "[]"
          and ps = "[]" and w = "[]" and chunks' = chunks' and cur' = cur'])
      show "chunk_overlap self \<le> 0" by (rule ov)
      show "\<And>c. is_space c \<Longrightarrow> D c" by (rule sp)
      show "list_all D sep" by (rule sep(2))
      show "split_loop (\<lambda>s. split_recursive self s rest) self sep splits [] [] = Inr (chunks', cur')"
        by (rule lp)
      show "\<And>s sub. s \<in> set splits \<Longrightarrow> split_recursive self s rest = Inr sub \<Longrightarrow> weave D sub s"
        by (rule rec)
      show "str_join sep [] = [] @ []" by simp
      show "weave D [] []" by (simp add: weave.gap)
    qed
    then obtain w' where w': "t = w' @ cur'" "weave D chunks' w'"
      using jn by auto
    have res: "split_recursive self t (sep # rest) =
        Inr (if cur' \<noteq> [] then chunks' @ [strip cur'] else chunks')"
      using False ss lp by simp
    have "weave D (if cur' \<noteq> [] then chunks' @ [strip cur'] else chunks') t"
    proof (cases "cur' = []")
      case True
      with w' show ?thesis by simp
    next
      case False
      from w'(2) weave_strip [of D cur', OF sp]
      have "weave D (chunks' @ [strip cur']) (w' @ cur')"
        by (rule weave_append)
      with False w'(1) show ?thesis by simp
    qed
    with res show ?thesis by simp
  qed
qed

lemma droppable_separators:
  "sep \<in> set (separators (RecursiveTextSplitter n ov)) \<Longrightarrow>
   sep \<noteq> [] \<and> list_all (\<lambda>c. is_space c \<or> c = 46) sep"
  by (auto simp: RecursiveTextSplitter_def nl_def py_def is_space_def)

text \<open>
  C6 (as the code has it). With no overlap, \<open>split_text\<close> returns, and the text is its
  chunks in their order with gaps before, between and after them; every character of a
  gap is white space or a full stop. So the concatenation of the chunks is the text with
  characters deleted at chunk boundaries only, and what is deleted there is stripped
  white space and dropped separators, among them \<open>. \<close> with its full stop.
\<close>

theorem C6_chunks_reproduce_text:
  "\<exists>chunks. split_text (RecursiveTextSplitter n 0) t = Inr chunks
     \<and> weave (\<lambda>c. is_space c \<or> c = 46) chunks t
     \<and> subseq (concat chunks) t
     \<and> filter (\<lambda>c. \<not> is_space c \<and> c \<noteq> 46) (concat chunks)
         = filter (\<lambda>c. \<not> is_space c \<and> c \<noteq> 46) t"
proof -
  have ov: "chunk_overlap (RecursiveTextSplitter n 0) \<le> 0"
    by (simp add: RecursiveTextSplitter_def)
  from split_recursive_weave [of "RecursiveTextSplitter n 0" "\<lambda>c. is_space c \<or> c = 46"
      "separators (RecursiveTextSplitter n 0)" t, OF ov] droppable_separators [of _ n 0]
  obtain chunks where c: "split_text (RecursiveTextSplitter n 0) t = Inr chunks"
      "weave (\<lambda>c. is_space c \<or> c = 46) chunks t"
    unfolding split_text_def by blast
  from c(2) have "subseq (concat chunks) t"
    by (rule weave_subseq)
  moreover from c(2) have "filter (\<lambda>c. \<not> is_space c \<and> c \<noteq> 46) (concat chunks)
         = filter (\<lambda>c. \<not> is_space c \<and> c \<noteq> 46) t"
    by (rule weave_filter) simp
  ultimately show ?thesis using c by blast
qed

lemma sentence_chunks:
  "split_text (RecursiveTextSplitter 5 0) (py ''aaaa. bbbb'') = Inr [py ''aaaa'', py ''bbbb'']"
  by (simp add: split_text_def RecursiveTextSplitter_def str_split_def py_def nl_def strip_def is_space_def)

theorem C6_chunks_reproduce_text_witness:
  "split_text (RecursiveTextSplitter 5 0) (py ''aaaa. bbbb'') = Inr [py ''aaaa'', py ''bbbb'']
   \<and> weave (\<lambda>c. is_space c \<or> c = 46) [py ''aaaa'', py ''bbbb''] (py ''aaaa. bbbb'')
   \<and> subseq (py ''aaaabbbb'') (py ''aaaa. bbbb'')"
  using C6_chunks_reproduce_text [of 5 "py ''aaaa. bbbb''"] sentence_chunks
  by (auto simp: py_def)

text \<open>
  C6 as stated fails: the chunks of \<open>aaaa. bbbb\<close> for chunk size 5 are \<open>aaaa\<close> and
  \<open>bbbb\<close>; the full stop is lost, so the text and the concatenation differ even after
  all white space is removed from both.
\<close>

theorem C6_full_stop_counterexample:
  "split_text (RecursiveTextSplitter 5 0) (py ''aaaa. bbbb'') = Inr [py ''aaaa'', py ''bbbb'']
   \<and> filter (\<lambda>c. \<not> is_space c) (concat [py ''aaaa'', py ''bbbb'']) = py ''aaaabbbb''
   \<and> filter (\<lambda>c. \<not> is_space c) (py ''aaaa. bbbb'') = py ''aaaa.bbbb''
   \<and> py ''aaaabbbb'' \<noteq> py ''aaaa.bbbb''"
  using sentence_chunks by (simp add: py_def is_space_def)

text \<open>
  C7 fails on the code: with chunk size 5 the piece \<open>cdefghij klm\<close> that follows a
  pending chunk is emitted whole (12 characters), although the separators \<open>\n\<close>,
  \<open>. \<close> and the blank were left and splitting the same piece with them gives the chunks
  \<open>cdefghij\<close> and \<open>klm\<close>.
\<close>

theorem C7_oversized_chunk:
  "split_text (RecursiveTextSplitter 5 0) (py ''ab'' @ nl @ nl @ py ''cdefghij klm'')
     = Inr [py ''ab'', py ''cdefghij klm'']
   \<and> length (py ''cdefghij klm'') = 12
   \<and> split_recursive (RecursiveTextSplitter 5 0) (py ''cdefghij klm'') [nl, py ''. '', py '' '']
     = Inr [py ''cdefghij'', py ''klm'']"
  by (simp add: split_text_def RecursiveTextSplitter_def str_split_def py_def nl_def strip_def is_space_def)

end
